theory Spec2Isabelle
  imports Complex_Main
begin

section \<open>Values, objects and the metadata policy (utils/softDelete.js)\<close>

text \<open>
  A JavaScript number is a double. The routes only compare numbers and test them for
  being falsy, never compute with them, so a finite number is modelled by the real it
  denotes (\<open>0\<close> and \<open>-0\<close> are the one value \<open>Fin 0\<close>; both are falsy).
\<close>

datatype jsnum = NaN | PosInf | NegInf | Fin real

text \<open>
  The values held by request bodies and stored documents: JSON, plus the two BSON
  scalars the code creates itself (\<open>new Date()\<close>, \<open>new ObjectId(id)\<close>). A date is its
  number of milliseconds since the epoch, an object id its canonical hex string.
\<close>

datatype json =
    JNull
  | JBool bool
  | JNum jsnum
  | JStr string
  | JDate int
  | JOid string
  | JArr "json list"
  | JObj "(string \<times> json) list"

text \<open>An object is the list of its own properties in insertion order, keys distinct.\<close>

type_synonym obj = "(string \<times> json) list"

text \<open>Truthiness, as the operator \<open>||\<close> tests it.\<close>

fun truthy :: "json \<Rightarrow> bool" where
  "truthy JNull = False"
| "truthy (JBool b) = b"
| "truthy (JNum n) = (n \<noteq> NaN \<and> n \<noteq> Fin 0)"
| "truthy (JStr s) = (s \<noteq> [])"
| "truthy (JDate t) = True"
| "truthy (JOid x) = True"
| "truthy (JArr xs) = True"
| "truthy (JObj ps) = True"

text \<open>\<open>o[k] = v\<close>: an existing property keeps its place, a new one goes last.\<close>

fun set_prop :: "string \<Rightarrow> json \<Rightarrow> obj \<Rightarrow> obj" where
  "set_prop k v [] = [(k, v)]"
| "set_prop k v (p # ps) = (if fst p = k then (k, v) # ps else p # set_prop k v ps)"

text \<open>\<open>{ ...a, ...b }\<close>: a fresh object with the properties of \<open>a\<close>, then those of \<open>b\<close>
  assigned over them from left to right.\<close>

definition spread :: "obj \<Rightarrow> obj \<Rightarrow> obj" where
  "spread a b = fold (\<lambda>p acc. set_prop (fst p) (snd p) acc) b a"

text \<open>\<open>user?.k || dflt\<close>, where \<open>None\<close> is a \<open>null\<close> or \<open>undefined\<close> user.\<close>

definition prop_or :: "obj option \<Rightarrow> string \<Rightarrow> json \<Rightarrow> json" where
  "prop_or user k dflt =
     (case user of
        None \<Rightarrow> dflt
      | Some u \<Rightarrow> (case map_of u k of
                     None \<Rightarrow> dflt
                   | Some v \<Rightarrow> if truthy v then v else dflt))"

text \<open>The clause \<open>{ $exists: b }\<close>.\<close>

definition exists_clause :: "bool \<Rightarrow> json" where
  "exists_clause b = JObj [(''$exists'', JBool b)]"

text \<open>
  \<open>addSoftDeleteFilter(filter = {})\<close>. The argument \<open>None\<close> is \<open>undefined\<close>, for which
  the default parameter gives the empty object. The object literal assigns
  \<open>deleted_at\<close> after the spread.
\<close>

definition addSoftDeleteFilter :: "obj option \<Rightarrow> obj" where
  "addSoftDeleteFilter flt =
     set_prop ''deleted_at'' (exists_clause False)
       (spread [] (case flt of None \<Rightarrow> [] | Some f \<Rightarrow> f))"

text \<open>The three metadata builders; \<open>now\<close> is what \<open>new Date()\<close> reads from the clock.\<close>

definition getCreateMetadata :: "obj option \<Rightarrow> int \<Rightarrow> obj" where
  "getCreateMetadata user now =
     [(''created_at'', JDate now), (''created_by'', prop_or user ''username'' (JStr ''system''))]"

definition getUpdateMetadata :: "obj option \<Rightarrow> int \<Rightarrow> obj" where
  "getUpdateMetadata user now =
     [(''updated_at'', JDate now), (''updated_by'', prop_or user ''username'' (JStr ''system''))]"

definition getDeleteMetadata :: "obj option \<Rightarrow> int \<Rightarrow> obj" where
  "getDeleteMetadata user now =
     [(''deleted_at'', JDate now), (''deleted_by'', prop_or user ''username'' (JStr ''system''))]"

subsection \<open>Objects held by reference\<close>

text \<open>
  In JavaScript the filter is passed by reference. To say that the callee leaves the
  caller's object alone, the same function is written over a heap of objects: a
  reference is an index below the length of the heap, and the object literal allocates
  a new cell.
  The source reads \<open>filter\<close> once, in the spread, and assigns only to the new object.
\<close>

type_synonym heap = "obj list"

definition addSoftDeleteFilter_ref :: "heap \<Rightarrow> nat option \<Rightarrow> heap \<times> nat" where
  "addSoftDeleteFilter_ref h r =
     (h @ [addSoftDeleteFilter (case r of None \<Rightarrow> None | Some a \<Rightarrow> Some (h ! a))], length h)"

section \<open>The document store: query predicates\<close>

text \<open>
  The store is MongoDB, reached through its driver; neither is code of this repository.
  A filter is an object whose entries all have to hold of a document. Two kinds of
  entry are fixed here, because the gateway builds them itself:
  \<^item> \<open>field: { $exists: b }\<close> holds when the presence of \<open>field\<close> is \<open>b\<close>;
  \<^item> \<open>field: ObjectId\<close> holds when the field is that id (or an array containing it).
  Both are for a plain top-level field name (no leading \<open>$\<close>, no dotted path). What any
  other entry means (comparison operators, \<open>$or\<close>, dotted paths, ...) is left to the
  store: it is a parameter, and every theorem holds for each choice of it.
\<close>

type_synonym qext = "string \<Rightarrow> json \<Rightarrow> obj \<Rightarrow> bool"

definition plain_field :: "string \<Rightarrow> bool" where
  "plain_field k = (k \<noteq> [] \<and> hd k \<noteq> CHR ''$'' \<and> CHR ''.'' \<notin> set k)"

definition field_is :: "obj \<Rightarrow> string \<Rightarrow> json \<Rightarrow> bool" where
  "field_is d k v =
     (case map_of d k of
        None \<Rightarrow> False
      | Some (JArr vs) \<Rightarrow> v \<in> set vs
      | Some w \<Rightarrow> w = v)"

definition holds_entry :: "qext \<Rightarrow> obj \<Rightarrow> string \<times> json \<Rightarrow> bool" where
  "holds_entry x d e =
     (let k = fst e; c = snd e in
      if \<not> plain_field k then x k c d
      else if c = exists_clause False then map_of d k = None
      else if c = exists_clause True then map_of d k \<noteq> None
      else (case c of
              JOid i \<Rightarrow> field_is d k (JOid i)
            | _ \<Rightarrow> x k c d))"

definition matches :: "qext \<Rightarrow> obj \<Rightarrow> obj \<Rightarrow> bool" where
  "matches x f d = list_all (holds_entry x d) f"

text \<open>A document is active when it has no \<open>deleted_at\<close> field.\<close>

definition active :: "obj \<Rightarrow> bool" where
  "active d = (map_of d ''deleted_at'' = None)"

text \<open>A document is the target of an identifier when its \<open>_id\<close> is that id.\<close>

definition has_id :: "string \<Rightarrow> obj \<Rightarrow> bool" where
  "has_id i d = field_is d ''_id'' (JOid i)"

text \<open>The filter without its own top-level entry for a key.\<close>

definition without_key :: "string \<Rightarrow> obj \<Rightarrow> obj" where
  "without_key k f = filter (\<lambda>p. fst p \<noteq> k) f"

subsection \<open>An instance of the store for closed examples\<close>

text \<open>
  For the closed examples below, a store that reads every entry it is asked about as
  equality of a top-level field.
\<close>

definition eq_ext :: qext where
  "eq_ext k c d = (map_of d k = Some c)"

section \<open>The document store: operations\<close>

text \<open>
  What the routes are given by their surroundings. None of it is code of this
  repository, so each function is a parameter and every theorem holds for each choice:
  \<^item> \<open>ext\<close>: the store's reading of the filter entries not fixed above;
  \<^item> \<open>objectId\<close>: \<open>new ObjectId(id)\<close>, the canonical id, or \<open>None\<close> where it throws;
  \<^item> \<open>number\<close>: \<open>Number(v)\<close> on a string, an array or an object;
  \<^item> \<open>sort_docs\<close>: the cursor's sort of the matching documents, or the store's error;
  \<^item> \<open>project\<close>: what the projection makes of each document, or the store's error;
  \<^item> \<open>set_path\<close>: for a key of \<open>$set\<close> that is not a plain field name (a dotted path,
    ...), the value the top-level field it starts with has after the assignment, from
    the key, the value assigned and the field's value before;
  \<^item> \<open>refuses\<close>: the store's own refusal of an update of a document (a path it cannot
    follow or does not accept, ...), with its message;
  \<^item> \<open>odd_number\<close>: the store's reading, as a \<open>skip\<close> or a \<open>limit\<close>, of a number that is
    not an integer (a fraction, an infinity): an integer, or its refusal;
  \<^item> \<open>first_batch\<close>: how many documents the store puts in the first batch of a
    cursor;
  \<^item> \<open>getDb\<close>: \<open>None\<close> when \<open>getDb()\<close> returns the handle, the message of the
    error when it throws;
  \<^item> \<open>store_down\<close>: \<open>None\<close> when the store answers, the message of the error that
    every operation on it throws when it cannot be reached.
\<close>

record env =
  ext :: qext
  objectId :: "string \<Rightarrow> string option"
  number :: "json \<Rightarrow> jsnum"
  sort_docs :: "json \<Rightarrow> obj list \<Rightarrow> string + obj list"
  project :: "json option \<Rightarrow> string + (obj \<Rightarrow> obj)"
  set_path :: "string \<Rightarrow> json \<Rightarrow> json option \<Rightarrow> json"
  refuses :: "obj \<Rightarrow> obj \<Rightarrow> string option"
  odd_number :: "jsnum \<Rightarrow> string + int"
  first_batch :: nat
  getDb :: "string option"
  store_down :: "string option"

text \<open>A database maps a collection name to its documents in natural order.\<close>

type_synonym db = "string \<Rightarrow> obj list"

text \<open>An operation on the store: it throws when the store cannot be reached.\<close>

definition store_op :: "env \<Rightarrow> string + 'a \<Rightarrow> string + 'a" where
  "store_op e r = (case store_down e of Some m \<Rightarrow> Inl m | None \<Rightarrow> r)"

text \<open>
  \<open>{ $set: flds }\<close> where every key is a plain field name, as in the deletion metadata:
  each field is assigned. The store refuses an update that would change \<open>_id\<close>.
\<close>

definition set_fields :: "obj \<Rightarrow> obj \<Rightarrow> obj" where
  "set_fields flds d = spread d flds"

definition set_allowed :: "obj \<Rightarrow> obj \<Rightarrow> bool" where
  "set_allowed flds d =
     (case map_of (rev flds) ''_id'' of None \<Rightarrow> True | Some v \<Rightarrow> map_of d ''_id'' = Some v)"

definition plain_update :: "obj \<Rightarrow> obj \<Rightarrow> string + obj" where
  "plain_update flds d =
     (if set_allowed flds d then Inr (set_fields flds d)
      else Inl ''Performing an update on the path _id would modify the immutable field _id'')"

text \<open>
  \<open>{ $set: flds }\<close> with the keys a caller may send. A key is a path: its first
  component, up to the first dot, names the top-level field it writes into. A plain key
  assigns that field; for any other key the field gets the value the store computes.
  The store refuses the update as a whole, and the document stays as it was, when its
  own checks refuse it, when a plain key and a longer path under the same field are
  both set (a conflict), and when \<open>_id\<close> would change.
\<close>

definition path_head :: "string \<Rightarrow> string" where
  "path_head k = takeWhile (\<lambda>c. c \<noteq> CHR ''.'') k"

definition set_one :: "env \<Rightarrow> obj \<Rightarrow> string \<times> json \<Rightarrow> obj" where
  "set_one e d p =
     set_prop (path_head (fst p))
       (if plain_field (fst p) then snd p
        else set_path e (fst p) (snd p) (map_of d (path_head (fst p))))
       d"

definition conflicting :: "obj \<Rightarrow> bool" where
  "conflicting flds =
     list_ex (\<lambda>p. \<not> plain_field (fst p)
                 \<and> list_ex (\<lambda>q. plain_field (fst q) \<and> fst q = path_head (fst p)) flds) flds"

definition set_update :: "env \<Rightarrow> obj \<Rightarrow> obj \<Rightarrow> string + obj" where
  "set_update e flds d =
     (case refuses e flds d of
        Some m \<Rightarrow> Inl m
      | None \<Rightarrow>
          if conflicting flds then Inl ''Updating the path would create a conflict''
          else
            (let d' = fold (\<lambda>p acc. set_one e acc p) flds d in
             if map_of d' ''_id'' = map_of d ''_id'' then Inr d'
             else Inl ''Performing an update on the path _id would modify the immutable field _id''))"

text \<open>\<open>findOne(filter)\<close>: the first match, or \<open>null\<close>.\<close>

definition findOne :: "qext \<Rightarrow> obj \<Rightarrow> obj list \<Rightarrow> obj option" where
  "findOne x f docs = find (matches x f) docs"

text \<open>
  The first document matching the filter is updated in place by \<open>upd\<close>. The result is
  the new collection with the document before and after, or \<open>None\<close> when nothing
  matched; a refused update is the store's error.
\<close>

fun update_first ::
  "qext \<Rightarrow> obj \<Rightarrow> (obj \<Rightarrow> string + obj) \<Rightarrow> obj list \<Rightarrow> string + (obj list \<times> (obj \<times> obj) option)" where
  "update_first x f upd [] = Inr ([], None)"
| "update_first x f upd (d # ds) =
     (if matches x f d then
        (case upd d of
           Inl m \<Rightarrow> Inl m
         | Inr d' \<Rightarrow> Inr (d' # ds, Some (d, d')))
      else (case update_first x f upd ds of
              Inl m \<Rightarrow> Inl m
            | Inr r \<Rightarrow> Inr (d # fst r, snd r)))"

text \<open>
  \<open>findOneAndUpdate(filter, { $set }, { returnDocument: "after" })\<close>, in the driver the
  route is written for: it resolves to a result object whose \<open>value\<close> is the document
  after the update, or \<open>null\<close> when nothing matched.
\<close>

definition findOneAndUpdate :: "env \<Rightarrow> obj \<Rightarrow> obj \<Rightarrow> obj list \<Rightarrow> string + (obj list \<times> obj option)" where
  "findOneAndUpdate e f flds docs =
     (case update_first (ext e) f (set_update e flds) docs of
        Inl m \<Rightarrow> Inl m
      | Inr r \<Rightarrow> Inr (fst r, map_option snd (snd r)))"

text \<open>
  \<open>updateOne(filter, { $set })\<close>, as the gateway calls it, with deletion metadata:
  \<open>modifiedCount\<close> counts a document that changed.
\<close>

definition updateOne :: "qext \<Rightarrow> obj \<Rightarrow> obj \<Rightarrow> obj list \<Rightarrow> string + (obj list \<times> nat)" where
  "updateOne x f flds docs =
     (case update_first x f (plain_update flds) docs of
        Inl m \<Rightarrow> Inl m
      | Inr r \<Rightarrow> Inr (fst r, (case snd r of
                                None \<Rightarrow> 0
                              | Some p \<Rightarrow> if fst p = snd p then 0 else 1)))"

text \<open>
  \<open>updateMany(filter, { $set })\<close>, as the gateway calls it: with deletion metadata,
  which never names \<open>_id\<close>, so that no update is refused.
\<close>

definition updateMany :: "qext \<Rightarrow> obj \<Rightarrow> obj \<Rightarrow> obj list \<Rightarrow> obj list \<times> nat" where
  "updateMany x f flds docs =
     (map (\<lambda>d. if matches x f d then set_fields flds d else d) docs,
      length (filter (\<lambda>d. matches x f d \<and> set_fields flds d \<noteq> d) docs))"

text \<open>
  \<open>insertOne(doc)\<close>: the driver gives the document a fresh \<open>_id\<close> when it has none
  (\<open>doc._id == null\<close>); the store refuses a second document with the same \<open>_id\<close>.
\<close>

definition with_id :: "string \<Rightarrow> obj \<Rightarrow> obj \<times> json" where
  "with_id fresh doc =
     (case map_of doc ''_id'' of
        None \<Rightarrow> (set_prop ''_id'' (JOid fresh) doc, JOid fresh)
      | Some JNull \<Rightarrow> (set_prop ''_id'' (JOid fresh) doc, JOid fresh)
      | Some v \<Rightarrow> (doc, v))"

definition insertOne :: "string \<Rightarrow> obj \<Rightarrow> obj list \<Rightarrow> string + (obj list \<times> json)" where
  "insertOne fresh doc docs =
     (let p = with_id fresh doc in
      if list_ex (\<lambda>e. map_of e ''_id'' = Some (snd p)) docs
      then Inl ''E11000 duplicate key error''
      else Inr (docs @ [fst p], snd p))"

subsection \<open>Numbers, skip and limit\<close>

text \<open>\<open>Number(v)\<close>: fixed on the primitives, the parameter on the rest.\<close>

definition to_number :: "env \<Rightarrow> json \<Rightarrow> jsnum" where
  "to_number e v =
     (case v of
        JNum n \<Rightarrow> n
      | JNull \<Rightarrow> Fin 0
      | JBool b \<Rightarrow> Fin (if b then 1 else 0)
      | JDate t \<Rightarrow> Fin (real_of_int t)
      | _ \<Rightarrow> number e v)"

text \<open>\<open>a || b\<close> on numbers: \<open>0\<close> and \<open>NaN\<close> are falsy.\<close>

definition num_or :: "jsnum \<Rightarrow> jsnum \<Rightarrow> jsnum" where
  "num_or a b = (if a = NaN \<or> a = Fin 0 then b else a)"

fun js_le :: "jsnum \<Rightarrow> jsnum \<Rightarrow> bool" where
  "js_le NaN b = False"
| "js_le a NaN = False"
| "js_le NegInf b = True"
| "js_le a PosInf = True"
| "js_le (Fin x) (Fin y) = (x \<le> y)"
| "js_le PosInf b = False"
| "js_le a NegInf = False"

definition Math_min :: "jsnum \<Rightarrow> jsnum \<Rightarrow> jsnum" where
  "Math_min a b = (if a = NaN \<or> b = NaN then NaN else if js_le a b then a else b)"

text \<open>
  The cursor. The number it is given is read as an integer: an integral number is that
  integer, any other number is read by the store or refused. \<open>skip\<close> refuses a negative
  integer. For \<open>limit\<close>, a positive integer bounds the result and \<open>0\<close> is no limit; for a
  negative integer the driver asks the store for a single batch of at most that many
  documents in absolute value, and the cursor ends with that batch.
\<close>

definition integral :: "real \<Rightarrow> bool" where
  "integral r = (r = real_of_int \<lfloor>r\<rfloor>)"

definition as_integer :: "env \<Rightarrow> jsnum \<Rightarrow> string + int" where
  "as_integer e n =
     (case n of
        Fin r \<Rightarrow> if integral r then Inr \<lfloor>r\<rfloor> else odd_number e n
      | _ \<Rightarrow> odd_number e n)"

definition cursor_skip :: "env \<Rightarrow> jsnum \<Rightarrow> obj list \<Rightarrow> string + obj list" where
  "cursor_skip e n docs =
     (case as_integer e n of
        Inl m \<Rightarrow> Inl m
      | Inr i \<Rightarrow> if 0 \<le> i then Inr (drop (nat i) docs)
                 else Inl ''Skip value must be non-negative'')"

definition cursor_limit :: "env \<Rightarrow> jsnum \<Rightarrow> obj list \<Rightarrow> string + obj list" where
  "cursor_limit e n docs =
     (case as_integer e n of
        Inl m \<Rightarrow> Inl m
      | Inr i \<Rightarrow> if i = 0 then Inr docs
                 else if 0 < i then Inr (take (nat i) docs)
                 else Inr (take (min (nat (- i)) (first_batch e)) docs))"

text \<open>\<open>find(filter, { projection }).sort(s).skip(k).limit(n).toArray()\<close>.\<close>

definition find_toArray ::
  "env \<Rightarrow> obj \<Rightarrow> json option \<Rightarrow> json \<Rightarrow> jsnum \<Rightarrow> jsnum \<Rightarrow> obj list \<Rightarrow> string + obj list" where
  "find_toArray e f projection srt k n docs =
     (case sort_docs e srt (filter (matches (ext e) f) docs) of
        Inl m \<Rightarrow> Inl m
      | Inr ordered \<Rightarrow>
          (case cursor_skip e k ordered of
             Inl m \<Rightarrow> Inl m
           | Inr skipped \<Rightarrow>
               (case cursor_limit e n skipped of
                  Inl m \<Rightarrow> Inl m
                | Inr limited \<Rightarrow>
                    (case project e projection of
                       Inl m \<Rightarrow> Inl m
                     | Inr shape \<Rightarrow> Inr (map shape limited)))))"

section \<open>The document store gateway (routes/dbRoutes.js)\<close>

text \<open>
  A response is the status code and the JSON body handed to \<open>res.status(..).json(..)\<close>.
  A handler takes the database and returns the response with the database after it.
  An error passed to \<open>next(err)\<close> reaches the application's error handler (index.js),
  which answers \<open>err.status || 500\<close> with \<open>err.message || "Internal Server Error"\<close>; the
  errors of the store carry no \<open>status\<close>.
\<close>

datatype response = Response nat json

definition error_body :: "string \<Rightarrow> json" where
  "error_body msg = JObj [(''error'', JStr msg)]"

definition next_err :: "string \<Rightarrow> response" where
  "next_err msg = Response 500 (error_body (if msg = [] then ''Internal Server Error'' else msg))"

text \<open>\<open>req.body || {}\<close>; \<open>None\<close> is a request without a parsed body.\<close>

definition body_or_empty :: "json option \<Rightarrow> json" where
  "body_or_empty b = (case b of None \<Rightarrow> JObj [] | Some v \<Rightarrow> if truthy v then v else JObj [])"

text \<open>\<open>typeof v === "object"\<close> and \<open>Array.isArray(v)\<close>.\<close>

fun typeof_object :: "json \<Rightarrow> bool" where
  "typeof_object JNull = True"
| "typeof_object (JBool b) = False"
| "typeof_object (JNum n) = False"
| "typeof_object (JStr s) = False"
| "typeof_object (JDate t) = True"
| "typeof_object (JOid i) = True"
| "typeof_object (JArr xs) = True"
| "typeof_object (JObj ps) = True"

fun isArray :: "json \<Rightarrow> bool" where
  "isArray (JArr xs) = True"
| "isArray v = False"

text \<open>
  The properties an object spread copies from a value that passed the two tests above:
  those of an object; \<open>null\<close>, a date and an id have none.
\<close>

fun own_props :: "json \<Rightarrow> obj" where
  "own_props (JObj ps) = ps"
| "own_props v = []"

text \<open>
  The filter \<open>{ _id }\<close> that the routes by identifier hand to \<open>addSoftDeleteFilter\<close>.
\<close>

definition id_filter :: "string \<Rightarrow> obj" where
  "id_filter i = addSoftDeleteFilter (Some [(''_id'', JOid i)])"

definition not_found :: response where
  "not_found = Response 404 (error_body ''Document not found'')"

text \<open>\<open>POST /collections/:name/documents\<close>. \<open>fresh\<close> is the id the driver would generate.\<close>

definition insert_document ::
  "env \<Rightarrow> obj option \<Rightarrow> int \<Rightarrow> string \<Rightarrow> string \<Rightarrow> json option \<Rightarrow> db \<Rightarrow> response \<times> db" where
  "insert_document e user now fresh name rbody s =
     (case getDb e of
        Some m \<Rightarrow> (next_err m, s)
      | None \<Rightarrow>
          (let body = body_or_empty rbody in
           if name = [] then (Response 400 (error_body ''Collection name is required''), s)
           else if \<not> typeof_object body \<or> isArray body
             then (Response 400 (error_body ''Body must be an object''), s)
           else
             (let docWithMetadata = spread (spread [] (own_props body)) (getCreateMetadata user now) in
              case store_op e (insertOne fresh docWithMetadata (s name)) of
                Inl m \<Rightarrow> (next_err m, s)
              | Inr r \<Rightarrow> (Response 201 (JObj [(''ok'', JBool True), (''insertedId'', snd r)]),
                          s(name := fst r)))))"

text \<open>\<open>PATCH /collections/:name/documents/:id\<close>.\<close>

definition update_document ::
  "env \<Rightarrow> obj option \<Rightarrow> int \<Rightarrow> string \<Rightarrow> string \<Rightarrow> json option \<Rightarrow> db \<Rightarrow> response \<times> db" where
  "update_document e user now name rid rbody s =
     (case getDb e of
        Some m \<Rightarrow> (next_err m, s)
      | None \<Rightarrow>
          (let updates = body_or_empty rbody in
           if name = [] then (Response 400 (error_body ''Collection name is required''), s)
           else if rid = [] then (Response 400 (error_body ''Document id is required''), s)
           else
             (case objectId e rid of
                None \<Rightarrow> (Response 400 (error_body ''Invalid id format''), s)
              | Some i \<Rightarrow>
                  if \<not> typeof_object updates \<or> isArray updates
                    then (Response 400 (error_body ''Body must be an object''), s)
                  else
                    (let updatesWithMetadata =
                           spread (spread [] (own_props updates)) (getUpdateMetadata user now) in
                     case store_op e (findOneAndUpdate e (id_filter i) updatesWithMetadata (s name)) of
                       Inl m \<Rightarrow> (next_err m, s)
                     | Inr r \<Rightarrow>
                         (case snd r of
                            None \<Rightarrow> (not_found, s(name := fst r))
                          | Some v \<Rightarrow> (Response 200 (JObj [(''ok'', JBool True), (''document'', JObj v)]),
                                       s(name := fst r)))))))"

text \<open>\<open>GET /collections/:name/documents/:id\<close>.\<close>

definition get_document :: "env \<Rightarrow> string \<Rightarrow> string \<Rightarrow> db \<Rightarrow> response \<times> db" where
  "get_document e name rid s =
     (case getDb e of
        Some m \<Rightarrow> (next_err m, s)
      | None \<Rightarrow>
          (case objectId e rid of
             None \<Rightarrow> (Response 400 (error_body ''Invalid id format''), s)
           | Some i \<Rightarrow>
               (case store_op e (Inr (findOne (ext e) (id_filter i) (s name))) of
                  Inl m \<Rightarrow> (next_err m, s)
                | Inr None \<Rightarrow> (not_found, s)
                | Inr (Some doc) \<Rightarrow>
                    (Response 200 (JObj [(''ok'', JBool True), (''document'', JObj doc)]), s))))"

text \<open>\<open>DELETE /collections/:name/documents/:id\<close>.\<close>

definition delete_document ::
  "env \<Rightarrow> obj option \<Rightarrow> int \<Rightarrow> string \<Rightarrow> string \<Rightarrow> db \<Rightarrow> response \<times> db" where
  "delete_document e user now name rid s =
     (case getDb e of
        Some m \<Rightarrow> (next_err m, s)
      | None \<Rightarrow>
          (case objectId e rid of
             None \<Rightarrow> (Response 400 (error_body ''Invalid id format''), s)
           | Some i \<Rightarrow>
               (case store_op e (updateOne (ext e) (id_filter i) (getDeleteMetadata user now) (s name)) of
                  Inl m \<Rightarrow> (next_err m, s)
                | Inr r \<Rightarrow>
                    if snd r = 0 then (not_found, s(name := fst r))
                    else (Response 200 (JObj [(''ok'', JBool True),
                                              (''deleted'', JNum (Fin (real (snd r))))]),
                          s(name := fst r)))))"

text \<open>
  What the destructuring \<open>const { filter = {}, ..., limit = 50, skip = 0 } = body\<close> reads.
  A property that is missing takes its default. On an array, \<open>filter\<close> and \<open>sort\<close> are
  the methods of that name, which \<open>typeof\<close> does not call an object: the routes
  answer 400 there.
\<close>

definition prop_default :: "obj \<Rightarrow> string \<Rightarrow> json \<Rightarrow> json" where
  "prop_default b k dflt = (case map_of b k of None \<Rightarrow> dflt | Some v \<Rightarrow> v)"

text \<open>\<open>sort || dflt\<close>.\<close>

definition sort_or :: "json option \<Rightarrow> json \<Rightarrow> json" where
  "sort_or srt dflt = (case srt of None \<Rightarrow> dflt | Some v \<Rightarrow> if truthy v then v else dflt)"

text \<open>The two expressions handed to \<open>skip\<close> and \<open>limit\<close> in \<open>POST /collections/:name/find\<close>.\<close>

definition find_skip :: "env \<Rightarrow> json \<Rightarrow> jsnum" where
  "find_skip e skip = num_or (to_number e skip) (Fin 0)"

definition find_limit :: "env \<Rightarrow> json \<Rightarrow> jsnum" where
  "find_limit e limit = Math_min (num_or (to_number e limit) (Fin 50)) (Fin 500)"

definition documents_body :: "string \<Rightarrow> obj list \<Rightarrow> json" where
  "documents_body k docs =
     JObj [(''ok'', JBool True), (''count'', JNum (Fin (real (length docs)))), (k, JArr (map JObj docs))]"

text \<open>\<open>POST /collections/:name/find\<close>.\<close>

definition find_documents :: "env \<Rightarrow> string \<Rightarrow> json option \<Rightarrow> db \<Rightarrow> response \<times> db" where
  "find_documents e name rbody s =
     (case getDb e of
        Some m \<Rightarrow> (next_err m, s)
      | None \<Rightarrow>
          (let body = body_or_empty rbody;
               flt = prop_default (own_props body) ''filter'' (JObj []);
               projection = map_of (own_props body) ''projection'';
               srt = map_of (own_props body) ''sort'';
               limit = prop_default (own_props body) ''limit'' (JNum (Fin 50));
               skip = prop_default (own_props body) ''skip'' (JNum (Fin 0))
           in
           if isArray body \<or> \<not> typeof_object flt \<or> isArray flt
             then (Response 400 (error_body ''filter must be an object''), s)
           else
             (let softDeleteFilter = addSoftDeleteFilter (Some (own_props flt)) in
              case store_op e (find_toArray e softDeleteFilter projection (sort_or srt (JObj []))
                                 (find_skip e skip) (find_limit e limit) (s name)) of
                Inl m \<Rightarrow> (next_err m, s)
              | Inr docs \<Rightarrow> (Response 200 (documents_body ''documents'' docs), s))))"

text \<open>\<open>DELETE /collections/:name/documents\<close>, and \<open>POST /collections/:name/documents/delete\<close>,
  which has the same body.\<close>

definition delete_documents ::
  "env \<Rightarrow> obj option \<Rightarrow> int \<Rightarrow> string \<Rightarrow> json option \<Rightarrow> db \<Rightarrow> response \<times> db" where
  "delete_documents e user now name rbody s =
     (case getDb e of
        Some m \<Rightarrow> (next_err m, s)
      | None \<Rightarrow>
          (let body = body_or_empty rbody;
               flt = prop_default (own_props body) ''filter'' (JObj [])
           in
           if isArray body \<or> \<not> typeof_object flt \<or> isArray flt
             then (Response 400 (error_body ''filter must be an object''), s)
           else
             (let softDeleteFilter = addSoftDeleteFilter (Some (own_props flt)) in
              case store_op e (Inr (updateMany (ext e) softDeleteFilter
                                      (getDeleteMetadata user now) (s name))) of
                Inl m \<Rightarrow> (next_err m, s)
              | Inr r \<Rightarrow> (Response 200 (JObj [(''ok'', JBool True),
                                                (''deleted'', JNum (Fin (real (snd r))))]),
                          s(name := fst r)))))"

section \<open>The audit log query (routes/actionsRoutes.js)\<close>

definition actions_limit :: "env \<Rightarrow> json \<Rightarrow> jsnum" where
  "actions_limit e limit = Math_min (num_or (to_number e limit) (Fin 100)) (Fin 1000)"

text \<open>\<open>POST /actions/find\<close>: the caller's filter goes to the store as it is.\<close>

definition find_actions :: "env \<Rightarrow> json option \<Rightarrow> db \<Rightarrow> response \<times> db" where
  "find_actions e rbody s =
     (case getDb e of
        Some m \<Rightarrow> (next_err m, s)
      | None \<Rightarrow>
          (let body = body_or_empty rbody;
               flt = prop_default (own_props body) ''filter'' (JObj []);
               projection = map_of (own_props body) ''projection'';
               srt = map_of (own_props body) ''sort'';
               limit = prop_default (own_props body) ''limit'' (JNum (Fin 100));
               skip = prop_default (own_props body) ''skip'' (JNum (Fin 0))
           in
           if isArray body \<or> \<not> typeof_object flt \<or> isArray flt
             then (Response 400 (error_body ''filter must be an object''), s)
           else
             (case store_op e (find_toArray e (own_props flt) projection
                                 (sort_or srt (JObj [(''timestamp'', JNum (Fin (- 1)))]))
                                 (find_skip e skip) (actions_limit e limit) (s ''actions'')) of
                Inl m \<Rightarrow> (next_err m, s)
              | Inr docs \<Rightarrow> (Response 200 (documents_body ''actions'' docs), s))))"

subsection \<open>Reading documents\<close>

text \<open>A document carries metadata when it has each of its fields with its value.\<close>

definition carries :: "obj \<Rightarrow> obj \<Rightarrow> bool" where
  "carries meta d = list_all (\<lambda>p. map_of d (fst p) = Some (snd p)) meta"

section \<open>The audit recorder (middleware/audit.js)\<close>

text \<open>The parts of the request that the audit record reads.\<close>

record request =
  user :: "obj option"
  req_method :: string
  originalUrl :: "string option"
  url :: string
  params :: json
  query :: json
  body :: "json option"
  ip :: "string option"
  remoteAddress :: "string option"
  userAgent :: "string option"

text \<open>
  The response object: the status code property and what has been sent to the client,
  the status line with the payload. \<open>res.status(n)\<close> assigns the property; the original
  \<open>res.send\<close> puts the payload on the wire under the status the property holds then.
\<close>

record res =
  statusCode :: nat
  sent :: "(nat \<times> json) option"

definition new_res :: res where
  "new_res = \<lparr>statusCode = 200, sent = None\<rparr>"

definition res_status :: "nat \<Rightarrow> res \<Rightarrow> res" where
  "res_status n r = r\<lparr>statusCode := n\<rparr>"

definition originalSend :: "json \<Rightarrow> res \<Rightarrow> res" where
  "originalSend data r = r\<lparr>sent := Some (statusCode r, data)\<rparr>"

text \<open>
  The replacement that \<open>auditLog\<close> installs as \<open>res.send\<close>: it keeps the payload in the
  local \<open>responseBody\<close> and calls the original with the same payload. The state is the
  response object with that local.
\<close>

definition audit_send :: "json \<Rightarrow> res \<times> json option \<Rightarrow> res \<times> json option" where
  "audit_send data st = (originalSend data (fst st), Some data)"

text \<open>A handler's \<open>res.status(n).json(payload)\<close>, through whichever \<open>send\<close> is installed.\<close>

definition deliver_plain :: "response \<Rightarrow> res \<Rightarrow> res" where
  "deliver_plain rp r = (case rp of Response n payload \<Rightarrow> originalSend payload (res_status n r))"

definition deliver_audited :: "response \<Rightarrow> res \<times> json option \<Rightarrow> res \<times> json option" where
  "deliver_audited rp st =
     (case rp of Response n payload \<Rightarrow> audit_send payload (res_status n (fst st), snd st))"

text \<open>What the process holds besides the database: the lines written by \<open>console.error\<close>.\<close>

record world =
  store :: db
  console :: "string list"

text \<open>A field whose value is \<open>undefined\<close> is stored as \<open>null\<close>.\<close>

definition stored_opt :: "json option \<Rightarrow> json" where
  "stored_opt v = (case v of None \<Rightarrow> JNull | Some w \<Rightarrow> w)"

text \<open>\<open>a || b\<close> on optional strings: \<open>undefined\<close> and the empty string are falsy.\<close>

definition str_or :: "string option \<Rightarrow> string option \<Rightarrow> string option" where
  "str_or a b = (case a of None \<Rightarrow> b | Some t \<Rightarrow> if t = [] then b else Some t)"

text \<open>
  The record assembled in the listener. \<open>start\<close> is the clock read when the middleware
  ran, \<open>now\<close> the clock read in the listener (\<open>Date.now()\<close> and \<open>new Date()\<close>).
\<close>

definition action :: "request \<Rightarrow> res \<Rightarrow> int \<Rightarrow> int \<Rightarrow> obj" where
  "action req r start now =
     [(''username'', prop_or (user req) ''username'' (JStr ''anonymous'')),
      (''email'', prop_or (user req) ''email'' JNull),
      (''method'', JStr (req_method req)),
      (''path'', stored_opt (map_option JStr (str_or (originalUrl req) (Some (url req))))),
      (''params'', params req),
      (''query'', query req),
      (''body'', stored_opt (body req)),
      (''statusCode'', JNum (Fin (real (statusCode r)))),
      (''duration'', JNum (Fin (real_of_int (now - start)))),
      (''timestamp'', JDate now),
      (''ip'', stored_opt (map_option JStr (str_or (ip req) (remoteAddress req)))),
      (''userAgent'', stored_opt (map_option JStr (userAgent req)))]"

text \<open>The body of the \<open>try\<close> in the listener: get the handle, build the record, insert it.\<close>

definition audit_write :: "env \<Rightarrow> request \<Rightarrow> res \<Rightarrow> int \<Rightarrow> int \<Rightarrow> string \<Rightarrow> db \<Rightarrow> string + db" where
  "audit_write e req r start now fresh s =
     (case getDb e of
        Some m \<Rightarrow> Inl m
      | None \<Rightarrow>
          (case store_op e (insertOne fresh (action req r start now) (s ''actions'')) of
             Inl m \<Rightarrow> Inl m
           | Inr p \<Rightarrow> Inr (s(''actions'' := fst p))))"

text \<open>The listener for \<open>finish\<close>: the \<open>try\<close> with its \<open>catch\<close>, which writes one line.\<close>

definition on_finish :: "env \<Rightarrow> request \<Rightarrow> res \<Rightarrow> int \<Rightarrow> int \<Rightarrow> string \<Rightarrow> world \<Rightarrow> world" where
  "on_finish e req r start now fresh w =
     (case audit_write e req r start now fresh (store w) of
        Inl m \<Rightarrow> w\<lparr>console := console w @ [''Audit log error: '' @ m]\<rparr>
      | Inr s \<Rightarrow> w\<lparr>store := s\<rparr>)"

text \<open>
  A request on a route behind \<open>auditLog\<close>. The middleware reads the clock, replaces
  \<open>res.send\<close>, registers the listener and calls \<open>next()\<close>. The route handler is any
  function of the database that answers with a response, or with none when the
  response is never finished. The runtime emits \<open>finish\<close> once, after the response has
  been handed over; the listener runs then, in the environment \<open>e2\<close> of that moment.
\<close>

definition auditLog ::
  "env \<Rightarrow> request \<Rightarrow> int \<Rightarrow> int \<Rightarrow> string \<Rightarrow> (db \<Rightarrow> response option \<times> db) \<Rightarrow> world \<Rightarrow> res \<times> world" where
  "auditLog e2 req start now fresh handler w =
     (let h = handler (store w);
          w1 = w\<lparr>store := snd h\<rparr>;
          st = (case fst h of
                  None \<Rightarrow> (new_res, None)
                | Some rp \<Rightarrow> deliver_audited rp (new_res, None))
      in if sent (fst st) = None then (fst st, w1)
         else (fst st, on_finish e2 req (fst st) start now fresh w1))"

text \<open>The same request on a route without the middleware.\<close>

definition unaudited :: "(db \<Rightarrow> response option \<times> db) \<Rightarrow> world \<Rightarrow> res \<times> world" where
  "unaudited handler w =
     (let h = handler (store w);
          w1 = w\<lparr>store := snd h\<rparr>
      in (case fst h of None \<Rightarrow> new_res | Some rp \<Rightarrow> deliver_plain rp new_res, w1))"

text \<open>The audit records of a database.\<close>

definition actions :: "db \<Rightarrow> obj list" where
  "actions s = s ''actions''"

section \<open>Instances for closed examples\<close>

text \<open>
  An environment in which everything works: ids are 24 characters long, \<open>Number\<close> of
  a string, an array or an object is \<open>NaN\<close>, the sort keeps the natural order and the
  projection keeps every field. The store refuses no update of its own accord, puts the
  value assigned to a path into an object under the rest of the path, refuses a number that
  is not an integer, and fills a first batch with 101 documents.
\<close>

definition env0 :: env where
  "env0 = \<lparr>ext = eq_ext,
           objectId = (\<lambda>t. if length t = 24 then Some t else None),
           number = (\<lambda>v. NaN),
           sort_docs = (\<lambda>srt ds. Inr ds),
           project = (\<lambda>p. Inr (\<lambda>d. d)),
           set_path = (\<lambda>k v old. JObj [(drop (Suc (length (path_head k))) k, v)]),
           refuses = (\<lambda>flds d. None),
           odd_number = (\<lambda>n. Inl ''Expected an integer''),
           first_batch = 101,
           getDb = None,
           store_down = None\<rparr>"

definition alice :: "obj option" where
  "alice = Some [(''username'', JStr ''alice''), (''email'', JStr ''alice@example.com'')]"

definition oid1 :: string where
  "oid1 = ''64b7f0c2a1d3e4f5a6b7c8d9''"

text \<open>A database with no documents.\<close>

definition empty_db :: db where
  "empty_db = (\<lambda>n. [])"

text \<open>A soft-deleted document, and a database whose collection \<open>items\<close> holds it.\<close>

definition widget_deleted :: obj where
  "widget_deleted =
     [(''_id'', JOid oid1), (''name'', JStr ''Widget''),
      (''created_at'', JDate 1), (''created_by'', JStr ''alice''),
      (''deleted_at'', JDate 5), (''deleted_by'', JStr ''bob'')]"

definition db_deleted :: db where
  "db_deleted = empty_db(''items'' := [widget_deleted])"

text \<open>The same document before its deletion.\<close>

definition widget :: obj where
  "widget =
     [(''_id'', JOid oid1), (''name'', JStr ''Widget''),
      (''created_at'', JDate 1), (''created_by'', JStr ''alice'')]"

definition db_widget :: db where
  "db_widget = empty_db(''items'' := [widget])"

text \<open>
  An environment in which the store cannot be reached, a request, a handler that
  answers 200 without touching the database, and a process that has logged nothing.
\<close>

definition env_down :: env where
  "env_down = env0\<lparr>store_down := Some ''connection lost''\<rparr>"

definition req0 :: request where
  "req0 = \<lparr>user = alice, req_method = ''GET'', originalUrl = Some ''/api/collections'',
           url = ''/collections'', params = JObj [], query = JObj [], body = None,
           ip = Some ''10.0.0.7'', remoteAddress = None, userAgent = Some ''curl/8''\<rparr>"

definition ok_handler :: "db \<Rightarrow> response option \<times> db" where
  "ok_handler s = (Some (Response 200 (JObj [(''ok'', JBool True)])), s)"

definition w0 :: world where
  "w0 = \<lparr>store = empty_db, console = []\<rparr>"

text \<open>A database whose collection \<open>items\<close> holds sixty active documents.\<close>

definition db_many :: db where
  "db_many = empty_db(''items'' := replicate 60 widget)"

section \<open>Properties of objects and filters\<close>

lemma map_of_set_prop: "map_of (set_prop k v ps) = (map_of ps)(k \<mapsto> v)"
  by (induction ps) (auto simp: fun_eq_iff)

lemma spread_Nil_left_aux:
  "distinct (map fst b) \<Longrightarrow> set (map fst a) \<inter> set (map fst b) = {} \<Longrightarrow>
   fold (\<lambda>p acc. set_prop (fst p) (snd p) acc) b a = a @ b"
proof (induction b arbitrary: a)
  case Nil
  then show ?case by simp
next
  case (Cons p b)
  have new: "fst p \<notin> set (map fst a)" using Cons.prems(2) by auto
  have app: "set_prop (fst p) (snd p) a = a @ [p]"
    using new by (induction a) auto
  have "fold (\<lambda>p acc. set_prop (fst p) (snd p) acc) b (a @ [p]) = (a @ [p]) @ b"
    using Cons.prems by (intro Cons.IH) auto
  then show ?case by (simp add: app)
qed

lemma map_of_spread:
  "map_of (spread a b) k = (case map_of (rev b) k of None \<Rightarrow> map_of a k | Some v \<Rightarrow> Some v)"
  unfolding spread_def
proof (induction b arbitrary: a)
  case Nil
  then show ?case by simp
next
  case (Cons p b)
  show ?case
    by (simp add: Cons.IH map_of_set_prop map_add_def split: option.splits)
qed

lemma without_key_absent: "k \<notin> fst ` set f \<Longrightarrow> without_key k f = f"
  by (induction f) (auto simp: without_key_def)

lemma matches_set_prop:
  "distinct (map fst f) \<Longrightarrow>
   matches x (set_prop k v f) d \<longleftrightarrow> matches x (without_key k f) d \<and> holds_entry x d (k, v)"
proof (induction f)
  case Nil
  then show ?case by (simp add: matches_def without_key_def)
next
  case (Cons p f)
  show ?case
  proof (cases "fst p = k")
    case True
    then have "k \<notin> fst ` set f" using Cons.prems by auto
    then have "without_key k f = f" by (rule without_key_absent)
    then have "without_key k (p # f) = f" using True by (simp add: without_key_def)
    then show ?thesis using True by (auto simp: matches_def)
  next
    case False
    then show ?thesis using Cons by (auto simp: matches_def without_key_def)
  qed
qed

lemma set_prop_keys: "fst ` set (set_prop k v ps) = insert k (fst ` set ps)"
  by (induction ps) auto

lemma distinct_set_prop: "distinct (map fst ps) \<Longrightarrow> distinct (map fst (set_prop k v ps))"
proof (induction ps)
  case Nil
  then show ?case by simp
next
  case (Cons p ps)
  have "fst p \<noteq> k \<Longrightarrow> fst p \<notin> set (map fst (set_prop k v ps))"
    using Cons.prems by (simp add: set_prop_keys)
  then show ?case using Cons by auto
qed

lemma distinct_fold_set_prop:
  "distinct (map fst a) \<Longrightarrow> distinct (map fst (fold (\<lambda>p acc. set_prop (fst p) (snd p) acc) b a))"
  by (induction b arbitrary: a) (auto simp: distinct_set_prop)

lemma distinct_spread: "distinct (map fst a) \<Longrightarrow> distinct (map fst (spread a b))"
  unfolding spread_def by (rule distinct_fold_set_prop)

lemma holds_deleted_at_absent:
  "holds_entry x d (''deleted_at'', exists_clause False) \<longleftrightarrow> active d"
  by (simp add: holds_entry_def plain_field_def active_def)

lemma spread_empty: "distinct (map fst f) \<Longrightarrow> spread [] f = f"
  unfolding spread_def using spread_Nil_left_aux [of f "[]"] by simp

lemma addSoftDeleteFilter_matches:
  "matches x (addSoftDeleteFilter (Some P)) d
     \<longleftrightarrow> matches x (without_key ''deleted_at'' (spread [] P)) d \<and> active d"
proof -
  have "distinct (map fst (spread [] P))" by (rule distinct_spread) simp
  then show ?thesis
    by (simp add: addSoftDeleteFilter_def matches_set_prop holds_deleted_at_absent)
qed

section \<open>Properties of the store operations\<close>

lemma id_filter_matches: "matches x (id_filter i) d \<longleftrightarrow> has_id i d \<and> active d"
  unfolding id_filter_def
  by (subst addSoftDeleteFilter_matches)
     (simp add: spread_def without_key_def matches_def holds_entry_def
      plain_field_def exists_clause_def has_id_def)

lemma update_first_no_match:
  "\<forall>d \<in> set ds. \<not> matches x f d \<Longrightarrow> update_first x f upd ds = Inr (ds, None)"
  by (induction ds) auto

lemma update_first_shape:
  "update_first x f upd ds = Inr r \<Longrightarrow>
   list_all2 (\<lambda>old new. new = old \<or> (matches x f old \<and> upd old = Inr new)) ds (fst r)"
proof (induction ds arbitrary: r)
  case Nil
  then show ?case by auto
next
  case (Cons d ds)
  show ?case
  proof (cases "matches x f d")
    case True
    then show ?thesis using Cons.prems
      by (auto split: sum.splits simp: list_all2_refl list.rel_refl)
  next
    case False
    then obtain r' where r': "update_first x f upd ds = Inr r'" and r: "r = (d # fst r', snd r')"
      using Cons.prems by (auto split: sum.splits)
    then show ?thesis using Cons.IH [OF r'] by simp
  qed
qed

lemma update_first_value:
  "update_first x f upd ds = Inr r \<Longrightarrow> snd r = Some p \<Longrightarrow>
   matches x f (fst p) \<and> upd (fst p) = Inr (snd p) \<and> fst p \<in> set ds \<and> snd p \<in> set (fst r)"
proof (induction ds arbitrary: r)
  case Nil
  then show ?case by auto
next
  case (Cons d ds)
  show ?case
  proof (cases "matches x f d")
    case True
    then show ?thesis using Cons.prems by (auto split: sum.splits)
  next
    case False
    then obtain r' where r': "update_first x f upd ds = Inr r'" and r: "r = (d # fst r', snd r')"
      using Cons.prems by (auto split: sum.splits)
    then show ?thesis using Cons.IH [OF r'] Cons.prems(2) by auto
  qed
qed

lemma update_first_none:
  "update_first x f upd ds = Inr r \<Longrightarrow> snd r = None \<Longrightarrow> fst r = ds"
proof (induction ds arbitrary: r)
  case Nil
  then show ?case by auto
next
  case (Cons d ds)
  show ?case
  proof (cases "matches x f d")
    case True
    then show ?thesis using Cons.prems by (auto split: sum.splits)
  next
    case False
    then obtain r' where r': "update_first x f upd ds = Inr r'" and r: "r = (d # fst r', snd r')"
      using Cons.prems by (auto split: sum.splits)
    then show ?thesis using Cons.IH [OF r'] Cons.prems(2) by auto
  qed
qed

lemma no_active_target:
  "\<forall>d\<in>set ds. has_id i d \<longrightarrow> \<not> active d \<Longrightarrow> \<forall>d\<in>set ds. \<not> matches x (id_filter i) d"
  by (simp add: id_filter_matches)

lemma findOneAndUpdate_no_target:
  "\<forall>d\<in>set ds. has_id i d \<longrightarrow> \<not> active d \<Longrightarrow>
   findOneAndUpdate e (id_filter i) flds ds = Inr (ds, None)"
  by (simp add: findOneAndUpdate_def update_first_no_match no_active_target)

lemma updateOne_no_target:
  "\<forall>d\<in>set ds. has_id i d \<longrightarrow> \<not> active d \<Longrightarrow>
   updateOne x (id_filter i) flds ds = Inr (ds, 0)"
  by (simp add: updateOne_def update_first_no_match no_active_target)

lemma findOne_no_target:
  "\<forall>d\<in>set ds. has_id i d \<longrightarrow> \<not> active d \<Longrightarrow> findOne x (id_filter i) ds = None"
  by (simp add: findOne_def find_None_iff no_active_target)

lemma update_document_no_target:
  assumes "\<forall>d\<in>set (s name). has_id i d \<longrightarrow> \<not> active d" and "objectId e rid = Some i"
  shows "update_document e u now name rid b s =
     (case getDb e of
        Some m \<Rightarrow> next_err m
      | None \<Rightarrow>
          if name = [] then Response 400 (error_body ''Collection name is required'')
          else if rid = [] then Response 400 (error_body ''Document id is required'')
          else if \<not> typeof_object (body_or_empty b) \<or> isArray (body_or_empty b)
            then Response 400 (error_body ''Body must be an object'')
          else (case store_down e of Some m \<Rightarrow> next_err m | None \<Rightarrow> not_found), s)"
  using assms
  by (simp add: update_document_def findOneAndUpdate_no_target store_op_def Let_def
      split: option.splits)

lemma delete_document_no_target:
  assumes "\<forall>d\<in>set (s name). has_id i d \<longrightarrow> \<not> active d" and "objectId e rid = Some i"
  shows "delete_document e u now name rid s =
     (case getDb e of
        Some m \<Rightarrow> next_err m
      | None \<Rightarrow> (case store_down e of Some m \<Rightarrow> next_err m | None \<Rightarrow> not_found), s)"
  using assms
  by (simp add: delete_document_def updateOne_no_target store_op_def split: option.splits)

lemma get_document_no_target:
  assumes "\<forall>d\<in>set (s name). has_id i d \<longrightarrow> \<not> active d" and "objectId e rid = Some i"
  shows "get_document e name rid s =
     (case getDb e of
        Some m \<Rightarrow> next_err m
      | None \<Rightarrow> (case store_down e of Some m \<Rightarrow> next_err m | None \<Rightarrow> not_found), s)"
  using assms
  by (simp add: get_document_def findOne_no_target store_op_def split: option.splits)

lemma delete_metadata_inactive: "\<not> active (set_fields (getDeleteMetadata u t) d)"
  by (simp add: active_def set_fields_def map_of_spread getDeleteMetadata_def)

lemma soft_filter_active: "matches x (addSoftDeleteFilter (Some f)) d \<Longrightarrow> active d"
  by (simp add: addSoftDeleteFilter_matches)

lemma updateMany_keeps_deleted:
  "list_all2 (\<lambda>old new. \<not> active old \<longrightarrow> new = old) ds
     (fst (updateMany x (addSoftDeleteFilter (Some f)) flds ds))"
  unfolding updateMany_def using soft_filter_active
  by (induction ds) auto

lemma updateMany_no_match:
  "\<forall>d\<in>set ds. \<not> matches x f d \<Longrightarrow> updateMany x f flds ds = (ds, 0)"
  by (simp add: updateMany_def map_idI)

lemma updateMany_again:
  "\<forall>d\<in>set (fst (updateMany x (addSoftDeleteFilter (Some f)) (getDeleteMetadata u t) ds)).
     \<not> matches x (addSoftDeleteFilter (Some f)) d"
proof
  fix d1
  assume "d1 \<in> set (fst (updateMany x (addSoftDeleteFilter (Some f)) (getDeleteMetadata u t) ds))"
  then have "\<exists>d. d1 = (if matches x (addSoftDeleteFilter (Some f)) d
                         then set_fields (getDeleteMetadata u t) d else d)"
    unfolding updateMany_def by (simp add: image_iff) blast
  then obtain d where d1: "d1 = (if matches x (addSoftDeleteFilter (Some f)) d
                                 then set_fields (getDeleteMetadata u t) d else d)"
    by blast
  show "\<not> matches x (addSoftDeleteFilter (Some f)) d1"
  proof (cases "matches x (addSoftDeleteFilter (Some f)) d")
    case True
    then have "\<not> active d1" using d1 by (simp add: delete_metadata_inactive)
    then show ?thesis using soft_filter_active by blast
  next
    case False
    then show ?thesis using d1 by simp
  qed
qed

subsection \<open>Facts about the closed examples\<close>

lemma widget_deleted_target:
  "\<forall>d\<in>set (db_deleted ''items''). has_id oid1 d \<longrightarrow> \<not> active d"
  by (simp add: db_deleted_def widget_deleted_def active_def)

lemma widget_deleted_facts:
  "db_deleted ''items'' = [widget_deleted]" "has_id oid1 widget_deleted" "\<not> active widget_deleted"
  by (simp_all add: db_deleted_def widget_deleted_def active_def has_id_def field_is_def)

lemma empty_db_no_target: "\<forall>d\<in>set (empty_db ''items''). \<not> has_id oid1 d"
  by (simp add: empty_db_def)

lemma env0_objectId: "objectId env0 oid1 = Some oid1"
  by (simp add: env0_def oid1_def)

section \<open>Properties of the gateway\<close>

lemma map_of_rev_distinct: "distinct (map fst xs) \<Longrightarrow> map_of (rev xs) = map_of xs"
proof (rule ext)
  fix k
  assume d: "distinct (map fst xs)"
  then have dr: "distinct (map fst (rev xs))" by (simp add: rev_map [symmetric])
  show "map_of (rev xs) k = map_of xs k"
  proof (cases "map_of xs k")
    case None
    then have "k \<notin> fst ` set xs" by (simp add: map_of_eq_None_iff)
    then have "map_of (rev xs) k = None" by (simp add: map_of_eq_None_iff)
    then show ?thesis using None by simp
  next
    case (Some v)
    then have "(k, v) \<in> set (rev xs)" using map_of_SomeD by fastforce
    then have "map_of (rev xs) k = Some v" using dr by (simp only: map_of_eq_Some_iff)
    then show ?thesis using Some by simp
  qed
qed

lemma spread_keys: "fst ` set (spread a b) = fst ` set a \<union> fst ` set b"
  unfolding spread_def by (induction b arbitrary: a) (auto simp: set_prop_keys)

lemma map_of_spread_distinct:
  "distinct (map fst b) \<Longrightarrow>
   map_of (spread a b) k = (case map_of b k of None \<Rightarrow> map_of a k | Some v \<Rightarrow> Some v)"
  by (simp add: map_of_spread map_of_rev_distinct)

lemma carries_spread:
  assumes "distinct (map fst meta)"
  shows "carries meta (spread a meta)"
  unfolding carries_def list_all_iff
proof
  fix p assume "p \<in> set meta"
  then have h: "map_of meta (fst p) = Some (snd p)" using assms by simp
  show "map_of (spread a meta) (fst p) = Some (snd p)"
    by (simp add: map_of_spread_distinct [OF assms] h)
qed

lemma carries_set_fields_plain:
  assumes "distinct (map fst meta)"
  shows "carries meta (set_fields meta old)"
  unfolding set_fields_def using assms by (rule carries_spread)

lemma set_fields_other:
  "k \<notin> fst ` set flds \<Longrightarrow> map_of (set_fields flds old) k = map_of old k"
proof -
  assume "k \<notin> fst ` set flds"
  then have "map_of (rev flds) k = None" by (simp add: map_of_eq_None_iff)
  then show ?thesis by (simp add: set_fields_def map_of_spread)
qed

lemma carries_with_id:
  "carries meta doc \<Longrightarrow> ''_id'' \<notin> fst ` set meta \<Longrightarrow> carries meta (fst (with_id fresh doc))"
  unfolding carries_def list_all_iff with_id_def
  by (force simp: map_of_set_prop split: option.splits json.splits)

lemma path_head_plain: "plain_field k \<Longrightarrow> path_head k = k"
  by (auto simp: plain_field_def path_head_def takeWhile_eq_all_conv)

lemma map_of_set_one:
  "map_of (set_one e d p) k =
     (if k = path_head (fst p)
      then Some (if plain_field (fst p) then snd p
                 else set_path e (fst p) (snd p) (map_of d (path_head (fst p))))
      else map_of d k)"
  by (simp add: set_one_def map_of_set_prop)

lemma fold_set_one_other:
  "k \<notin> path_head ` fst ` set flds \<Longrightarrow>
   map_of (fold (\<lambda>p acc. set_one e acc p) flds d) k = map_of d k"
  by (induction flds arbitrary: d) (auto simp: map_of_set_one)

lemma fold_set_one_plain:
  assumes "plain_field k"
      and "(k, v) \<in> set flds"
      and "\<forall>p\<in>set flds. path_head (fst p) = k \<longrightarrow> p = (k, v)"
  shows "map_of (fold (\<lambda>p acc. set_one e acc p) flds d) k = Some v"
  using assms(2,3)
proof (induction flds arbitrary: d)
  case Nil
  then show ?case by simp
next
  case (Cons p ps)
  show ?case
  proof (cases "(k, v) \<in> set ps")
    case True
    then show ?thesis using Cons.IH [of "set_one e d p"] Cons.prems(2) by simp
  next
    case False
    then have p: "p = (k, v)" using Cons.prems(1) by simp
    have "k \<notin> path_head ` fst ` set ps"
    proof
      assume "k \<in> path_head ` fst ` set ps"
      then obtain q where q: "q \<in> set ps" "path_head (fst q) = k" by auto
      then have "q = (k, v)" using Cons.prems(2) by simp
      then show False using q(1) False by simp
    qed
    then have "map_of (fold (\<lambda>p acc. set_one e acc p) ps (set_one e d p)) k
        = map_of (set_one e d p) k"
      by (rule fold_set_one_other)
    then show ?thesis
      using p assms(1) by (simp add: map_of_set_one path_head_plain)
  qed
qed

lemma unique_head:
  assumes "distinct (map fst flds)" and "\<not> conflicting flds"
      and "plain_field k" and "map_of flds k = Some v"
  shows "(k, v) \<in> set flds \<and> (\<forall>p\<in>set flds. path_head (fst p) = k \<longrightarrow> p = (k, v))"
proof -
  have kv: "(k, v) \<in> set flds" using assms(4) by (rule map_of_SomeD)
  have "p = (k, v)" if p: "p \<in> set flds" and h: "path_head (fst p) = k" for p
  proof (cases "plain_field (fst p)")
    case True
    then have "fst p = k" using h by (simp add: path_head_plain)
    then have "(k, snd p) \<in> set flds" using p by (metis prod.collapse)
    then have "snd p = v" using kv assms(1) eq_key_imp_eq_value by fastforce
    then show ?thesis using \<open>fst p = k\<close> by (metis prod.collapse)
  next
    case False
    then have "conflicting flds"
      unfolding conflicting_def list_ex_iff using p h kv assms(3) by force
    then show ?thesis using assms(2) by simp
  qed
  then show ?thesis using kv by blast
qed

lemma set_update_Inr:
  "set_update e flds d = Inr d' \<Longrightarrow>
   \<not> conflicting flds \<and> d' = fold (\<lambda>p acc. set_one e acc p) flds d"
  by (auto simp: set_update_def Let_def split: option.splits if_splits)

lemma set_update_plain:
  assumes "set_update e flds d = Inr d'" and "distinct (map fst flds)"
      and "plain_field k" and "map_of flds k = Some v"
  shows "map_of d' k = Some v"
proof -
  have c: "\<not> conflicting flds" and d': "d' = fold (\<lambda>p acc. set_one e acc p) flds d"
    using set_update_Inr [OF assms(1)] by simp_all
  have u: "(k, v) \<in> set flds \<and> (\<forall>p\<in>set flds. path_head (fst p) = k \<longrightarrow> p = (k, v))"
    using assms(2) c assms(3,4) by (rule unique_head)
  show ?thesis unfolding d' using assms(3) u by (intro fold_set_one_plain) simp_all
qed

lemma set_update_other:
  "set_update e flds d = Inr d' \<Longrightarrow> k \<notin> path_head ` fst ` set flds \<Longrightarrow> map_of d' k = map_of d k"
  using set_update_Inr [of e flds d d'] by (simp add: fold_set_one_other)

lemma carries_set_update:
  assumes "set_update e (spread (spread [] a) meta) old = Inr new"
      and "distinct (map fst meta)" and "\<forall>p\<in>set meta. plain_field (fst p)"
  shows "carries meta new"
  unfolding carries_def list_all_iff
proof
  fix p assume p: "p \<in> set meta"
  then have h: "map_of meta (fst p) = Some (snd p)" using assms(2) by simp
  have m: "map_of (spread (spread [] a) meta) (fst p) = Some (snd p)"
    by (simp add: map_of_spread_distinct [OF assms(2)] h)
  have d: "distinct (map fst (spread (spread [] a) meta))"
    by (intro distinct_spread) simp
  show "map_of new (fst p) = Some (snd p)"
    using assms(1) d _ m by (rule set_update_plain) (use p assms(3) in simp)
qed

lemma plain_update_Inr: "plain_update flds d = Inr d' \<Longrightarrow> d' = set_fields flds d"
  by (simp add: plain_update_def split: if_splits)

lemma update_first_shape_weak:
  "update_first x f upd ds = Inr r \<Longrightarrow>
   list_all2 (\<lambda>old new. new = old \<or> upd old = Inr new) ds (fst r)"
  by (drule update_first_shape) (erule list_all2_mono, blast)

lemma update_document_shape:
  "list_all2 (\<lambda>old new. new = old \<or>
       set_update e (spread (spread [] (own_props (body_or_empty b))) (getUpdateMetadata u now)) old
         = Inr new)
     (s name) (snd (update_document e u now name rid b s) name)"
  by (auto simp: update_document_def findOneAndUpdate_def store_op_def Let_def list.rel_refl
      split: option.splits sum.splits dest: update_first_shape_weak)

lemma delete_document_shape:
  "list_all2 (\<lambda>old new. new = old \<or> new = set_fields (getDeleteMetadata u now) old)
     (s name) (snd (delete_document e u now name rid s) name)"
proof -
  have "list_all2 (\<lambda>old new. new = old \<or> plain_update (getDeleteMetadata u now) old = Inr new)
     (s name) (snd (delete_document e u now name rid s) name)"
    by (auto simp: delete_document_def updateOne_def store_op_def Let_def list.rel_refl
        split: option.splits sum.splits dest: update_first_shape_weak)
  then show ?thesis
    by (rule list_all2_mono) (auto dest: plain_update_Inr)
qed

lemma updateMany_shape:
  "list_all2 (\<lambda>old new. new = old \<or> new = set_fields flds old) ds (fst (updateMany x f flds ds))"
  unfolding updateMany_def by (induction ds) auto

lemma delete_documents_shape:
  "list_all2 (\<lambda>old new. new = old \<or> new = set_fields (getDeleteMetadata u now) old)
     (s name) (snd (delete_documents e u now name b s) name)"
  by (auto simp: delete_documents_def store_op_def Let_def list.rel_refl updateMany_shape
      split: option.splits sum.splits)

lemma meta_distinct:
  "distinct (map fst (getCreateMetadata u now))"
  "distinct (map fst (getUpdateMetadata u now))"
  "distinct (map fst (getDeleteMetadata u now))"
  by (simp_all add: getCreateMetadata_def getUpdateMetadata_def getDeleteMetadata_def)

lemma update_metadata_plain: "\<forall>p\<in>set (getUpdateMetadata u now). plain_field (fst p)"
  by (simp add: getUpdateMetadata_def plain_field_def)

lemma insert_document_shape:
  "(fst (insert_document e u now fresh name b s) =
      Response 201 (JObj [(''ok'', JBool True),
        (''insertedId'', snd (with_id fresh (spread (spread [] (own_props (body_or_empty b)))
                                               (getCreateMetadata u now))))])
    \<and> snd (insert_document e u now fresh name b s) =
        s(name := s name @ [fst (with_id fresh (spread (spread [] (own_props (body_or_empty b)))
                                               (getCreateMetadata u now)))]))
   \<or> ((\<exists>st bd. fst (insert_document e u now fresh name b s) = Response st bd \<and> st \<noteq> 201)
      \<and> snd (insert_document e u now fresh name b s) = s)"
  by (auto simp: insert_document_def insertOne_def store_op_def Let_def next_err_def
      split: option.splits sum.splits)

lemma update_document_ok:
  assumes "fst (update_document e u now name rid b s)
             = Response 200 (JObj [(''ok'', JBool True), (''document'', JObj d')])"
  shows "(\<exists>old. set_update e (spread (spread [] (own_props (body_or_empty b)))
                               (getUpdateMetadata u now)) old = Inr d')
       \<and> d' \<in> set (snd (update_document e u now name rid b s) name)"
proof -
  let ?flds = "spread (spread [] (own_props (body_or_empty b))) (getUpdateMetadata u now)"
  obtain i r p where r: "update_first (ext e) (id_filter i) (set_update e ?flds) (s name) = Inr r"
      and p: "snd r = Some p" and d: "snd p = d'"
      and st: "snd (update_document e u now name rid b s) = s(name := fst r)"
    using assms
    by (auto simp: update_document_def findOneAndUpdate_def store_op_def Let_def next_err_def
        not_found_def error_body_def split: option.splits sum.splits if_splits)
  have "set_update e ?flds (fst p) = Inr (snd p) \<and> snd p \<in> set (fst r)"
    using update_first_value [OF r p] by simp
  then show ?thesis using d st by auto
qed

text \<open>The definitions unfolded to run the gateway on the closed examples.\<close>

lemmas eval_defs = insert_document_def update_document_def env0_def body_or_empty_def spread_def
  getCreateMetadata_def getUpdateMetadata_def prop_or_def alice_def insertOne_def with_id_def
  store_op_def empty_db_def Let_def oid1_def findOneAndUpdate_def id_filter_matches
  set_allowed_def set_fields_def has_id_def field_is_def active_def db_widget_def widget_def
  set_update_def conflicting_def set_one_def path_head_def plain_field_def

section \<open>Properties of skip and limit\<close>

lemma num_or_truthy: "c \<noteq> 0 \<Longrightarrow> num_or a (Fin c) \<noteq> NaN \<and> num_or a (Fin c) \<noteq> Fin 0"
  by (simp add: num_or_def)

lemma Math_min_le: "a \<noteq> NaN \<Longrightarrow> js_le (Math_min a (Fin c)) (Fin c)"
  by (cases a) (simp_all add: Math_min_def)

lemma Math_min_truthy:
  "a \<noteq> NaN \<Longrightarrow> a \<noteq> Fin 0 \<Longrightarrow> c \<noteq> 0 \<Longrightarrow> Math_min a (Fin c) \<noteq> NaN \<and> Math_min a (Fin c) \<noteq> Fin 0"
  by (cases a) (simp_all add: Math_min_def)

lemma find_limit_facts:
  "js_le (find_limit e l) (Fin 500)" "find_limit e l \<noteq> Fin 0" "find_limit e l \<noteq> NaN"
  unfolding find_limit_def
  using num_or_truthy [of 50 "to_number e l"]
  by (simp_all add: Math_min_le Math_min_truthy)

lemma actions_limit_facts:
  "js_le (actions_limit e l) (Fin 1000)" "actions_limit e l \<noteq> Fin 0" "actions_limit e l \<noteq> NaN"
  unfolding actions_limit_def
  using num_or_truthy [of 100 "to_number e l"]
  by (simp_all add: Math_min_le Math_min_truthy)

lemma limit_negative:
  "r < 0 \<Longrightarrow> find_limit e (JNum (Fin r)) = Fin r"
  "r < 0 \<Longrightarrow> actions_limit e (JNum (Fin r)) = Fin r"
  by (simp_all add: find_limit_def actions_limit_def to_number_def num_or_def Math_min_def)

lemma cursor_limit_negative:
  "integral r \<Longrightarrow> r < 0 \<Longrightarrow>
   cursor_limit e (Fin r) ds = Inr (take (min (nat (- \<lfloor>r\<rfloor>)) (first_batch e)) ds)"
  by (auto simp: cursor_limit_def as_integer_def integral_def)


lemma cursor_skip_zero: "cursor_skip e (Fin 0) ds = Inr ds"
  by (simp add: cursor_skip_def as_integer_def integral_def)



lemma find_skip_zero: "find_skip e (JNum (Fin 0)) = Fin 0"
  by (simp add: find_skip_def num_or_def to_number_def)

lemma find_documents_run:
  assumes "getDb e = None" and "store_down e = None"
      and "typeof_object (prop_default bd ''filter'' (JObj []))"
      and "\<not> isArray (prop_default bd ''filter'' (JObj []))"
  shows "find_documents e name (Some (JObj bd)) s =
     (case find_toArray e (addSoftDeleteFilter (Some (own_props (prop_default bd ''filter'' (JObj [])))))
             (map_of bd ''projection'') (sort_or (map_of bd ''sort'') (JObj []))
             (find_skip e (prop_default bd ''skip'' (JNum (Fin 0))))
             (find_limit e (prop_default bd ''limit'' (JNum (Fin 50)))) (s name) of
        Inl m \<Rightarrow> (next_err m, s)
      | Inr docs \<Rightarrow> (Response 200 (documents_body ''documents'' docs), s))"
  using assms
  by (simp add: find_documents_def body_or_empty_def store_op_def Let_def)

subsection \<open>Facts about the closed examples\<close>

lemma env0_simps:
  "getDb env0 = None" "store_down env0 = None" "ext env0 = eq_ext" "first_batch env0 = 101"
  "sort_docs env0 srt ds = Inr ds" "project env0 p = Inr (\<lambda>d. d)" "number env0 v = NaN"
  by (simp_all add: env0_def)

lemma matches_widget: "matches eq_ext (addSoftDeleteFilter (Some [])) widget"
  by (simp add: addSoftDeleteFilter_def spread_def matches_def holds_entry_def plain_field_def
      exists_clause_def widget_def)

section \<open>Properties of the audit recorder\<close>

lemma action_no_id: "map_of (action req r start now) ''_id'' = None"
  by (simp add: action_def)

lemma action_with_id:
  "with_id fresh (action req r start now)
     = (set_prop ''_id'' (JOid fresh) (action req r start now), JOid fresh)"
  by (simp add: with_id_def action_no_id)

lemma action_fields:
  "map_of (set_prop ''_id'' (JOid fresh) (action req r start now)) ''statusCode''
     = Some (JNum (Fin (real (statusCode r))))"
  "map_of (set_prop ''_id'' (JOid fresh) (action req r start now)) ''duration''
     = Some (JNum (Fin (real_of_int (now - start))))"
  by (simp_all add: map_of_set_prop action_def)

lemma audit_write_cases:
  "(audit_write e req r start now fresh s
      = Inr (s(''actions'' := s ''actions'' @ [set_prop ''_id'' (JOid fresh) (action req r start now)]))
    \<and> getDb e = None \<and> store_down e = None
    \<and> \<not> list_ex (\<lambda>d. map_of d ''_id'' = Some (JOid fresh)) (s ''actions''))
   \<or> ((\<exists>m. audit_write e req r start now fresh s = Inl m)
    \<and> \<not> (getDb e = None \<and> store_down e = None
          \<and> \<not> list_ex (\<lambda>d. map_of d ''_id'' = Some (JOid fresh)) (s ''actions'')))"
  by (auto simp: audit_write_def store_op_def insertOne_def action_with_id Let_def
      split: option.splits)

lemma deliver_audited_res:
  "fst (deliver_audited rp (r, bdy)) = deliver_plain rp r"
  by (cases rp) (simp add: deliver_audited_def deliver_plain_def audit_send_def)

lemma deliver_plain_sent:
  "deliver_plain (Response n payload) new_res = \<lparr>statusCode = n, sent = Some (n, payload)\<rparr>"
  by (simp add: deliver_plain_def originalSend_def res_status_def new_res_def)

lemma auditLog_res: "fst (auditLog e2 req start now fresh handler w) = fst (unaudited handler w)"
  by (auto simp: auditLog_def unaudited_def Let_def deliver_audited_res split: option.splits)

lemma auditLog_none:
  "fst (handler (store w)) = None \<Longrightarrow>
   auditLog e2 req start now fresh handler w = (new_res, w\<lparr>store := snd (handler (store w))\<rparr>)"
  by (simp add: auditLog_def Let_def new_res_def)

lemma auditLog_some:
  "fst (handler (store w)) = Some (Response n payload) \<Longrightarrow>
   auditLog e2 req start now fresh handler w
     = (\<lparr>statusCode = n, sent = Some (n, payload)\<rparr>,
        on_finish e2 req \<lparr>statusCode = n, sent = Some (n, payload)\<rparr> start now fresh
          (w\<lparr>store := snd (handler (store w))\<rparr>))"
  by (simp add: auditLog_def Let_def deliver_audited_res deliver_plain_sent)

lemma unaudited_some:
  "fst (handler (store w)) = Some (Response n payload) \<Longrightarrow>
   unaudited handler w
     = (\<lparr>statusCode = n, sent = Some (n, payload)\<rparr>, w\<lparr>store := snd (handler (store w))\<rparr>)"
  by (simp add: unaudited_def Let_def deliver_plain_sent)

lemma unaudited_none:
  "fst (handler (store w)) = None \<Longrightarrow>
   unaudited handler w = (new_res, w\<lparr>store := snd (handler (store w))\<rparr>)"
  by (simp add: unaudited_def Let_def)

lemma on_finish_ok:
  assumes "getDb e = None" and "store_down e = None"
      and "\<not> list_ex (\<lambda>d. map_of d ''_id'' = Some (JOid fresh)) (actions (store w))"
  shows "on_finish e req r start now fresh w
       = w\<lparr>store := (store w)(''actions'' := actions (store w)
                         @ [set_prop ''_id'' (JOid fresh) (action req r start now)])\<rparr>"
  using assms audit_write_cases [of e req r start now fresh "store w"]
  by (auto simp: on_finish_def actions_def)

lemma on_finish_failed:
  assumes "\<not> (getDb e = None \<and> store_down e = None
             \<and> \<not> list_ex (\<lambda>d. map_of d ''_id'' = Some (JOid fresh)) (actions (store w)))"
  shows "\<exists>m. on_finish e req r start now fresh w = w\<lparr>console := console w @ [''Audit log error: '' @ m]\<rparr>"
  using assms audit_write_cases [of e req r start now fresh "store w"]
  by (auto simp: on_finish_def actions_def)

text \<open>The definitions unfolded to run the recorder on the closed examples.\<close>

lemmas audit_eval_defs = auditLog_def unaudited_def ok_handler_def w0_def env_down_def env0_def
  deliver_audited_def deliver_plain_def audit_send_def originalSend_def res_status_def new_res_def
  on_finish_def audit_write_def store_op_def actions_def empty_db_def Let_def insertOne_def
  action_with_id

section \<open>The soft-delete filter as a predicate\<close>

text \<open>
  C1, as stated: for every filter \<open>P\<close>, \<open>addSoftDeleteFilter P\<close> matches exactly the
  documents that \<open>P\<close> matches and that have no \<open>deleted_at\<close>. This fails for a filter
  with its own top-level \<open>deleted_at\<close> entry: the object literal assigns \<open>deleted_at\<close>
  after the spread, so the caller's entry is replaced, not conjoined. The filter
  \<open>{ deleted_at: { $exists: true } }\<close> matches no active document, yet its image matches
  the active document \<open>{ name: "Widget" }\<close>.
\<close>

theorem C1_counterexample:
  "matches eq_ext (addSoftDeleteFilter (Some [(''deleted_at'', exists_clause True)]))
     [(''name'', JStr ''Widget'')]
   \<and> \<not> (matches eq_ext [(''deleted_at'', exists_clause True)] [(''name'', JStr ''Widget'')]
          \<and> active [(''name'', JStr ''Widget'')])"
  by (simp add: addSoftDeleteFilter_def spread_def matches_def holds_entry_def plain_field_def
      exists_clause_def active_def)

text \<open>
  C1, amended: for a filter \<open>P\<close> (an object, so its keys are distinct),
  \<open>addSoftDeleteFilter P\<close> matches exactly the documents without \<open>deleted_at\<close> that
  satisfy every entry of \<open>P\<close> other than a top-level \<open>deleted_at\<close> entry; when \<open>P\<close> has
  no such entry this is \<open>P\<close> and \<open>deleted_at\<close> absent. The call allocates a fresh
  object: every object of the heap, the argument among them, is left as it was.
\<close>

theorem C1_addSoftDeleteFilter_override:
  assumes "distinct (map fst P)"
  shows "(matches x (addSoftDeleteFilter (Some P)) d
            \<longleftrightarrow> matches x (without_key ''deleted_at'' P) d \<and> active d)
       \<and> (''deleted_at'' \<notin> fst ` set P \<longrightarrow>
            (matches x (addSoftDeleteFilter (Some P)) d \<longleftrightarrow> matches x P d \<and> active d))
       \<and> (\<forall>h a. a < length h \<longrightarrow>
            take (length h) (fst (addSoftDeleteFilter_ref h (Some a))) = h
          \<and> snd (addSoftDeleteFilter_ref h (Some a)) = length h
          \<and> fst (addSoftDeleteFilter_ref h (Some a)) ! length h = addSoftDeleteFilter (Some (h ! a)))"
proof -
  have sp: "spread [] P = P" using assms by (rule spread_empty)
  have one: "matches x (addSoftDeleteFilter (Some P)) d
            \<longleftrightarrow> matches x (without_key ''deleted_at'' P) d \<and> active d"
    using addSoftDeleteFilter_matches [of x P d] by (simp add: sp)
  have two: "''deleted_at'' \<notin> fst ` set P \<longrightarrow>
            (matches x (addSoftDeleteFilter (Some P)) d \<longleftrightarrow> matches x P d \<and> active d)"
    using one by (simp add: without_key_absent)
  have three: "\<forall>h a. a < length h \<longrightarrow>
            take (length h) (fst (addSoftDeleteFilter_ref h (Some a))) = h
          \<and> snd (addSoftDeleteFilter_ref h (Some a)) = length h
          \<and> fst (addSoftDeleteFilter_ref h (Some a)) ! length h = addSoftDeleteFilter (Some (h ! a))"
    by (simp add: addSoftDeleteFilter_ref_def)
  show ?thesis using one two three by blast
qed

theorem C1_addSoftDeleteFilter_override_witness:
  "distinct (map fst [(''status'', JStr ''open'')])
   \<and> ''deleted_at'' \<notin> fst ` set [(''status'', JStr ''open'')]
   \<and> (0::nat) < length [[(''status'', JStr ''open'')]]
   \<and> matches eq_ext (addSoftDeleteFilter (Some [(''status'', JStr ''open'')]))
        [(''status'', JStr ''open''), (''created_by'', JStr ''alice'')]
   \<and> matches eq_ext [(''status'', JStr ''open'')]
        [(''status'', JStr ''open''), (''created_by'', JStr ''alice'')]
   \<and> active [(''status'', JStr ''open''), (''created_by'', JStr ''alice'')]
   \<and> fst (addSoftDeleteFilter_ref [[(''status'', JStr ''open'')]] (Some 0)) ! 0
       = [(''status'', JStr ''open'')]"
proof -
  have h: "distinct (map fst [(''status'', JStr ''open'')])" by simp
  have k: "''deleted_at'' \<notin> fst ` set [(''status'', JStr ''open'')]" by simp
  have l: "(0::nat) < length [[(''status'', JStr ''open'')]]" by simp
  have m: "matches eq_ext [(''status'', JStr ''open'')]
        [(''status'', JStr ''open''), (''created_by'', JStr ''alice'')]"
    by (simp add: matches_def holds_entry_def plain_field_def exists_clause_def eq_ext_def)
  have a: "active [(''status'', JStr ''open''), (''created_by'', JStr ''alice'')]"
    by (simp add: active_def)
  have r: "fst (addSoftDeleteFilter_ref [[(''status'', JStr ''open'')]] (Some 0)) ! 0
       = [(''status'', JStr ''open'')]"
    by (simp add: addSoftDeleteFilter_ref_def)
  show ?thesis
    using C1_addSoftDeleteFilter_override
      [OF h, of eq_ext "[(''status'', JStr ''open''), (''created_by'', JStr ''alice'')]"]
      h k l m a r
    by blast
qed

section \<open>Lifecycle metadata and caller-supplied fields\<close>

text \<open>
  C2, as stated: on a collision between a caller-supplied field and any of the six
  reserved fields, the stored value is the policy's. Each operation merges only its own
  two fields over the caller's: \<open>{ ...body, ...getCreateMetadata(req.user) }\<close> on Insert.
  A caller's \<open>deleted_at\<close> on Insert is therefore stored as supplied; the creation
  metadata has no such field to put in its place.
\<close>

theorem C2_counterexample:
  "snd (insert_document env0 alice 1000 oid1 ''items''
          (Some (JObj [(''name'', JStr ''Widget''), (''deleted_at'', JStr ''x'')])) empty_db) ''items''
     = [[(''name'', JStr ''Widget''), (''deleted_at'', JStr ''x''),
         (''created_at'', JDate 1000), (''created_by'', JStr ''alice''), (''_id'', JOid oid1)]]
   \<and> map_of (getCreateMetadata alice 1000) ''deleted_at'' = None"
  by (simp add: eval_defs)

text \<open>
  C2, amended: a document created by Insert carries the creation metadata, and every
  document changed by Update, by Soft-delete by identifier or by Soft-delete by filter
  carries the update, respectively deletion, metadata, with the policy's values,
  whatever the caller's body holds under those keys. Only the fields of the
  operation's own metadata are meant: the policy computes no value for the others.
\<close>

theorem C2_policy_fields_win:
  "(case insert_document e u now fresh name b s of
      (Response st bd, s') \<Rightarrow>
        (st = 201 \<longrightarrow> (\<exists>d. s' name = s name @ [d] \<and> carries (getCreateMetadata u now) d))
        \<and> (st \<noteq> 201 \<longrightarrow> s' = s))
   \<and> list_all2 (\<lambda>old new. new = old \<or> carries (getUpdateMetadata u now) new) (s name)
        (snd (update_document e u now name rid b s) name)
   \<and> list_all2 (\<lambda>old new. new = old \<or> carries (getDeleteMetadata u now) new) (s name)
        (snd (delete_document e u now name rid s) name)
   \<and> list_all2 (\<lambda>old new. new = old \<or> carries (getDeleteMetadata u now) new) (s name)
        (snd (delete_documents e u now name b s) name)"
proof -
  let ?doc = "spread (spread [] (own_props (body_or_empty b))) (getCreateMetadata u now)"
  have c: "carries (getCreateMetadata u now) (fst (with_id fresh ?doc))"
    by (rule carries_with_id) (simp_all add: carries_spread meta_distinct getCreateMetadata_def)
  have ins: "case insert_document e u now fresh name b s of
      (Response st bd, s') \<Rightarrow>
        (st = 201 \<longrightarrow> (\<exists>d. s' name = s name @ [d] \<and> carries (getCreateMetadata u now) d))
        \<and> (st \<noteq> 201 \<longrightarrow> s' = s)"
    using insert_document_shape [of e u now fresh name b s] c
    by (cases "insert_document e u now fresh name b s") (auto split: response.splits)
  have upd: "list_all2 (\<lambda>old new. new = old \<or> carries (getUpdateMetadata u now) new) (s name)
        (snd (update_document e u now name rid b s) name)"
    by (rule list_all2_mono [OF update_document_shape])
       (use carries_set_update [OF _ meta_distinct(2) update_metadata_plain] in blast)
  have del: "list_all2 (\<lambda>old new. new = old \<or> carries (getDeleteMetadata u now) new) (s name)
        (snd (delete_document e u now name rid s) name)"
    by (rule list_all2_mono [OF delete_document_shape])
       (auto simp: carries_set_fields_plain meta_distinct)
  have dels: "list_all2 (\<lambda>old new. new = old \<or> carries (getDeleteMetadata u now) new) (s name)
        (snd (delete_documents e u now name b s) name)"
    by (rule list_all2_mono [OF delete_documents_shape])
       (auto simp: carries_set_fields_plain meta_distinct)
  show ?thesis using ins upd del dels by blast
qed

theorem C2_policy_fields_win_witness:
  "fst (insert_document env0 alice 1000 oid1 ''items''
          (Some (JObj [(''name'', JStr ''Widget''), (''created_by'', JStr ''mallory'')])) empty_db)
     = Response 201 (JObj [(''ok'', JBool True), (''insertedId'', JOid oid1)])
   \<and> (\<exists>d. snd (insert_document env0 alice 1000 oid1 ''items''
          (Some (JObj [(''name'', JStr ''Widget''), (''created_by'', JStr ''mallory'')])) empty_db) ''items''
            = empty_db ''items'' @ [d]
          \<and> carries (getCreateMetadata alice 1000) d)"
proof -
  have r: "fst (insert_document env0 alice 1000 oid1 ''items''
          (Some (JObj [(''name'', JStr ''Widget''), (''created_by'', JStr ''mallory'')])) empty_db)
     = Response 201 (JObj [(''ok'', JBool True), (''insertedId'', JOid oid1)])"
    by (simp add: eval_defs)
  show ?thesis
    using C2_policy_fields_win [where e = env0 and u = alice and now = 1000 and fresh = oid1
        and name = "''items''" and s = empty_db
        and b = "Some (JObj [(''name'', JStr ''Widget''), (''created_by'', JStr ''mallory'')])"] r
    by (cases "insert_document env0 alice 1000 oid1 ''items''
          (Some (JObj [(''name'', JStr ''Widget''), (''created_by'', JStr ''mallory'')])) empty_db")
       auto
qed

section \<open>One audit record per finished request\<close>

text \<open>
  C3, as stated: every finished request has exactly one audit record persisted. The
  listener swallows the failure of its own write: with the store out of reach the
  client still receives its 200, no record is stored, and one line is logged.
\<close>

theorem C3_counterexample:
  "fst (ok_handler (store w0)) = Some (Response 200 (JObj [(''ok'', JBool True)]))
   \<and> sent (fst (auditLog env_down req0 100 105 oid1 ok_handler w0))
       = Some (200, JObj [(''ok'', JBool True)])
   \<and> actions (store (snd (auditLog env_down req0 100 105 oid1 ok_handler w0))) = []
   \<and> console (snd (auditLog env_down req0 100 105 oid1 ok_handler w0))
       = [''Audit log error: connection lost'']"
  by (simp add: audit_eval_defs)

text \<open>
  C3, amended: a request whose response is never finished leaves no audit record. For
  a request answered with status \<open>n\<close>, the client receives that status and payload, and
  the listener makes one attempt: when the handle is obtained, the store is reachable
  and accepts the insert, exactly one record is appended to \<open>actions\<close>, with
  \<open>statusCode\<close> \<open>n\<close> and \<open>duration\<close> the clock at \<open>finish\<close> minus the clock at the start (not
  negative when the clock did not go back); otherwise no record is stored and one line
  is logged. No other collection is touched.
\<close>

theorem C3_audit_record:
  "(fst (handler (store w)) = None \<longrightarrow>
      auditLog e2 req start now fresh handler w = (new_res, w\<lparr>store := snd (handler (store w))\<rparr>))
   \<and> (fst (handler (store w)) = Some (Response n payload) \<longrightarrow>
        sent (fst (auditLog e2 req start now fresh handler w)) = Some (n, payload)
      \<and> (\<forall>k. k \<noteq> ''actions'' \<longrightarrow>
            store (snd (auditLog e2 req start now fresh handler w)) k = snd (handler (store w)) k)
      \<and> (getDb e2 = None \<and> store_down e2 = None
          \<and> \<not> list_ex (\<lambda>d. map_of d ''_id'' = Some (JOid fresh)) (actions (snd (handler (store w))))
          \<longrightarrow> (\<exists>a d. actions (store (snd (auditLog e2 req start now fresh handler w)))
                       = actions (snd (handler (store w))) @ [a]
                   \<and> map_of a ''statusCode'' = Some (JNum (Fin (real n)))
                   \<and> map_of a ''duration'' = Some (JNum (Fin d))
                   \<and> d = real_of_int (now - start) \<and> (start \<le> now \<longrightarrow> 0 \<le> d)
                   \<and> console (snd (auditLog e2 req start now fresh handler w)) = console w))
      \<and> (\<not> (getDb e2 = None \<and> store_down e2 = None
             \<and> \<not> list_ex (\<lambda>d. map_of d ''_id'' = Some (JOid fresh)) (actions (snd (handler (store w)))))
          \<longrightarrow> store (snd (auditLog e2 req start now fresh handler w)) = snd (handler (store w))
            \<and> (\<exists>m. console (snd (auditLog e2 req start now fresh handler w))
                      = console w @ [''Audit log error: '' @ m])))"
proof -
  let ?w1 = "w\<lparr>store := snd (handler (store w))\<rparr>"
  let ?r = "\<lparr>statusCode = n, sent = Some (n, payload)\<rparr>"
  let ?ok = "getDb e2 = None \<and> store_down e2 = None
          \<and> \<not> list_ex (\<lambda>d. map_of d ''_id'' = Some (JOid fresh)) (actions (snd (handler (store w))))"
  have none: "fst (handler (store w)) = None \<longrightarrow>
      auditLog e2 req start now fresh handler w = (new_res, ?w1)"
    by (simp add: auditLog_none)
  have some: "auditLog e2 req start now fresh handler w = (?r, on_finish e2 req ?r start now fresh ?w1)"
    if "fst (handler (store w)) = Some (Response n payload)"
    using that by (rule auditLog_some)
  have good: "on_finish e2 req ?r start now fresh ?w1
       = ?w1\<lparr>store := (store ?w1)(''actions'' := actions (store ?w1)
                         @ [set_prop ''_id'' (JOid fresh) (action req ?r start now)])\<rparr>"
    if ?ok
    using that by (intro on_finish_ok) simp_all
  have bad: "\<exists>m. on_finish e2 req ?r start now fresh ?w1
       = ?w1\<lparr>console := console ?w1 @ [''Audit log error: '' @ m]\<rparr>"
    if "\<not> ?ok"
    using that by (intro on_finish_failed) simp
  have others: "store (on_finish e2 req ?r start now fresh ?w1) k = snd (handler (store w)) k"
    if "k \<noteq> ''actions''" for k
  proof (cases ?ok)
    case True
    then show ?thesis using that by (simp add: good)
  next
    case False
    then obtain m where "on_finish e2 req ?r start now fresh ?w1
       = ?w1\<lparr>console := console ?w1 @ [''Audit log error: '' @ m]\<rparr>"
      using bad by blast
    then show ?thesis by simp
  qed
  show ?thesis
  proof (intro conjI impI)
    show "fst (handler (store w)) = None \<Longrightarrow>
      auditLog e2 req start now fresh handler w = (new_res, ?w1)"
      using none by simp
  next
    assume h: "fst (handler (store w)) = Some (Response n payload)"
    show "sent (fst (auditLog e2 req start now fresh handler w)) = Some (n, payload)"
      by (simp add: some [OF h])
    show "\<forall>k. k \<noteq> ''actions'' \<longrightarrow>
            store (snd (auditLog e2 req start now fresh handler w)) k = snd (handler (store w)) k"
      by (simp add: some [OF h] others)
  next
    assume h: "fst (handler (store w)) = Some (Response n payload)" and ok: ?ok
    show "\<exists>a d. actions (store (snd (auditLog e2 req start now fresh handler w)))
                       = actions (snd (handler (store w))) @ [a]
                   \<and> map_of a ''statusCode'' = Some (JNum (Fin (real n)))
                   \<and> map_of a ''duration'' = Some (JNum (Fin d))
                   \<and> d = real_of_int (now - start) \<and> (start \<le> now \<longrightarrow> 0 \<le> d)
                   \<and> console (snd (auditLog e2 req start now fresh handler w)) = console w"
      by (rule exI [of _ "set_prop ''_id'' (JOid fresh) (action req ?r start now)"],
          rule exI [of _ "real_of_int (now - start)"])
         (simp add: some [OF h] good [OF ok] action_fields actions_def)
  next
    assume h: "fst (handler (store w)) = Some (Response n payload)" and nok: "\<not> ?ok"
    obtain m where m: "on_finish e2 req ?r start now fresh ?w1
       = ?w1\<lparr>console := console ?w1 @ [''Audit log error: '' @ m]\<rparr>"
      using bad [OF nok] by blast
    show "store (snd (auditLog e2 req start now fresh handler w)) = snd (handler (store w))"
      by (simp add: some [OF h] m)
    show "\<exists>m. console (snd (auditLog e2 req start now fresh handler w))
                      = console w @ [''Audit log error: '' @ m]"
      by (rule exI [of _ m]) (simp add: some [OF h] m)
  qed
qed

theorem C3_audit_record_witness:
  "fst (ok_handler (store w0)) = Some (Response 200 (JObj [(''ok'', JBool True)]))
   \<and> getDb env0 = None \<and> store_down env0 = None \<and> actions (store w0) = [] \<and> (100::int) \<le> 105
   \<and> sent (fst (auditLog env0 req0 100 105 oid1 ok_handler w0))
       = Some (200, JObj [(''ok'', JBool True)])
   \<and> (\<exists>a. actions (store (snd (auditLog env0 req0 100 105 oid1 ok_handler w0))) = [a]
          \<and> map_of a ''statusCode'' = Some (JNum (Fin 200))
          \<and> map_of a ''duration'' = Some (JNum (Fin 5)))
   \<and> console (snd (auditLog env0 req0 100 105 oid1 ok_handler w0)) = []"
proof -
  have h: "fst (ok_handler (store w0)) = Some (Response 200 (JObj [(''ok'', JBool True)]))"
    by (simp add: ok_handler_def)
  have s: "snd (ok_handler (store w0)) = empty_db"
    by (simp add: ok_handler_def w0_def)
  have ok: "getDb env0 = None \<and> store_down env0 = None
      \<and> \<not> list_ex (\<lambda>d. map_of d ''_id'' = Some (JOid oid1)) (actions (snd (ok_handler (store w0))))"
    by (simp add: env0_def s actions_def empty_db_def)
  have a: "actions (store w0) = []" "console w0 = []"
    by (simp_all add: w0_def actions_def empty_db_def)
  show ?thesis
    using C3_audit_record [where handler = ok_handler and w = w0 and n = 200
        and payload = "JObj [(''ok'', JBool True)]" and ?e2.0 = env0 and req = req0
        and start = 100 and now = 105 and fresh = oid1] h ok a
    by (auto simp: s actions_def empty_db_def)
qed

section \<open>Update of a soft-deleted or missing document\<close>

text \<open>
  C4: when every document of the collection that carries the identifier is soft-deleted
  (none carries it when the target does not exist), Update-by-identifier leaves the
  database as it was, whatever the body, and so changes no \<open>deleted_at\<close> or
  \<open>deleted_by\<close>; a well-formed request that reaches the store is answered 404
  "Document not found".
\<close>

theorem C4_update_deleted_not_found:
  assumes "\<forall>d\<in>set (s name). has_id i d \<longrightarrow> \<not> active d"
      and "objectId e rid = Some i"
  shows "snd (update_document e u now name rid b s) = s
       \<and> (getDb e = None \<and> store_down e = None \<and> name \<noteq> [] \<and> rid \<noteq> []
            \<and> typeof_object (body_or_empty b) \<and> \<not> isArray (body_or_empty b)
          \<longrightarrow> fst (update_document e u now name rid b s) = not_found)"
  using assms by (simp add: update_document_no_target [where s = s and name = name and i = i])

theorem C4_update_deleted_not_found_witness:
  "db_deleted ''items'' = [widget_deleted]
   \<and> has_id oid1 widget_deleted \<and> \<not> active widget_deleted
   \<and> objectId env0 oid1 = Some oid1
   \<and> update_document env0 alice 9 ''items'' oid1 (Some (JObj [(''name'', JStr ''Widget2'')])) db_deleted
       = (not_found, db_deleted)"
proof -
  have g: "getDb env0 = None \<and> store_down env0 = None \<and> ''items'' \<noteq> [] \<and> oid1 \<noteq> []
      \<and> typeof_object (body_or_empty (Some (JObj [(''name'', JStr ''Widget2'')])))
      \<and> \<not> isArray (body_or_empty (Some (JObj [(''name'', JStr ''Widget2'')])))"
    by (simp add: env0_def oid1_def body_or_empty_def)
  show ?thesis
    using C4_update_deleted_not_found [where s = db_deleted and name = "''items''" and i = oid1
        and e = env0 and rid = oid1 and u = alice and now = 9
        and b = "Some (JObj [(''name'', JStr ''Widget2'')])"] g
      widget_deleted_target env0_objectId widget_deleted_facts
    by (simp add: prod_eq_iff)
qed

section \<open>Soft-delete of a soft-deleted document\<close>

text \<open>
  C5: when every document that carries the identifier is already soft-deleted,
  Soft-delete-by-identifier changes nothing and answers 404 "Document not found".
  Soft-delete-by-filter never changes a document that is already soft-deleted, and the
  same request sent again, by whomever and whenever, changes nothing and answers 200
  with \<open>deleted: 0\<close>.
\<close>

theorem C5_soft_delete_idempotent:
  assumes "\<forall>d\<in>set (s name). has_id i d \<longrightarrow> \<not> active d"
      and "objectId e rid = Some i"
      and "getDb e = None" and "store_down e = None"
      and "\<not> isArray (body_or_empty b)"
      and "typeof_object (prop_default (own_props (body_or_empty b)) ''filter'' (JObj []))"
      and "\<not> isArray (prop_default (own_props (body_or_empty b)) ''filter'' (JObj []))"
  shows "delete_document e u now name rid s = (not_found, s)
       \<and> list_all2 (\<lambda>old new. \<not> active old \<longrightarrow> new = old) (s name)
            (snd (delete_documents e u now name b s) name)
       \<and> delete_documents e u2 now2 name b (snd (delete_documents e u now name b s))
           = (Response 200 (JObj [(''ok'', JBool True), (''deleted'', JNum (Fin 0))]),
              snd (delete_documents e u now name b s))"
proof -
  let ?f = "own_props (prop_default (own_props (body_or_empty b)) ''filter'' (JObj []))"
  let ?F = "addSoftDeleteFilter (Some ?f)"
  let ?ds1 = "fst (updateMany (ext e) ?F (getDeleteMetadata u now) (s name))"
  have one: "delete_document e u now name rid s = (not_found, s)"
    using assms(1-4) by (simp add: delete_document_no_target [where i = i])
  have first: "snd (delete_documents e u now name b s) = s(name := ?ds1)"
    using assms(3-7) by (simp add: delete_documents_def store_op_def Let_def)
  have two: "list_all2 (\<lambda>old new. \<not> active old \<longrightarrow> new = old) (s name)
            (snd (delete_documents e u now name b s) name)"
    by (simp add: first updateMany_keeps_deleted)
  have "updateMany (ext e) ?F (getDeleteMetadata u2 now2) ?ds1 = (?ds1, 0)"
    by (rule updateMany_no_match) (rule updateMany_again)
  then have three: "delete_documents e u2 now2 name b (s(name := ?ds1))
      = (Response 200 (JObj [(''ok'', JBool True), (''deleted'', JNum (Fin 0))]), s(name := ?ds1))"
    using assms(3-7) by (simp add: delete_documents_def store_op_def Let_def)
  show ?thesis using one two three by (simp add: first)
qed

theorem C5_soft_delete_idempotent_witness:
  "db_deleted ''items'' = [widget_deleted]
   \<and> has_id oid1 widget_deleted \<and> \<not> active widget_deleted
   \<and> objectId env0 oid1 = Some oid1
   \<and> getDb env0 = None \<and> store_down env0 = None
   \<and> \<not> isArray (body_or_empty (Some (JObj [(''filter'', JObj [(''name'', JStr ''Widget'')])])))
   \<and> typeof_object (prop_default (own_props (body_or_empty
          (Some (JObj [(''filter'', JObj [(''name'', JStr ''Widget'')])])))) ''filter'' (JObj []))
   \<and> \<not> isArray (prop_default (own_props (body_or_empty
          (Some (JObj [(''filter'', JObj [(''name'', JStr ''Widget'')])])))) ''filter'' (JObj []))
   \<and> delete_document env0 alice 9 ''items'' oid1 db_deleted = (not_found, db_deleted)
   \<and> delete_documents env0 None 11 ''items''
        (Some (JObj [(''filter'', JObj [(''name'', JStr ''Widget'')])]))
        (snd (delete_documents env0 alice 9 ''items''
               (Some (JObj [(''filter'', JObj [(''name'', JStr ''Widget'')])])) db_deleted))
       = (Response 200 (JObj [(''ok'', JBool True), (''deleted'', JNum (Fin 0))]),
          snd (delete_documents env0 alice 9 ''items''
               (Some (JObj [(''filter'', JObj [(''name'', JStr ''Widget'')])])) db_deleted))"
proof -
  have up: "getDb env0 = None" "store_down env0 = None"
    by (simp_all add: env0_def)
  have g1: "\<not> isArray (body_or_empty (Some (JObj [(''filter'', JObj [(''name'', JStr ''Widget'')])])))"
    by (simp add: body_or_empty_def)
  have g2: "typeof_object (prop_default (own_props (body_or_empty
          (Some (JObj [(''filter'', JObj [(''name'', JStr ''Widget'')])])))) ''filter'' (JObj []))"
    by (simp add: body_or_empty_def prop_default_def)
  have g3: "\<not> isArray (prop_default (own_props (body_or_empty
          (Some (JObj [(''filter'', JObj [(''name'', JStr ''Widget'')])])))) ''filter'' (JObj []))"
    by (simp add: body_or_empty_def prop_default_def)
  show ?thesis
    using C5_soft_delete_idempotent [where s = db_deleted and name = "''items''" and i = oid1
        and e = env0 and rid = oid1 and u = alice and now = 9 and ?u2.0 = None and ?now2.0 = 11
        and b = "Some (JObj [(''filter'', JObj [(''name'', JStr ''Widget'')])])",
        OF widget_deleted_target env0_objectId up g1 g2 g3]
      widget_deleted_target env0_objectId up g1 g2 g3 widget_deleted_facts
    by blast
qed

section \<open>A deleted document looks like a missing one\<close>

text \<open>
  C6: take a database \<open>s1\<close> in which no document carries the identifier and a database
  \<open>s2\<close> in which every document that carries it is soft-deleted. Get, Update and
  Soft-delete by identifier give the same response, status and body, on both.
\<close>

theorem C6_not_found_indistinguishable:
  assumes "\<forall>d\<in>set (s1 name). \<not> has_id i d"
      and "\<forall>d\<in>set (s2 name). has_id i d \<longrightarrow> \<not> active d"
      and "objectId e rid = Some i"
  shows "fst (get_document e name rid s1) = fst (get_document e name rid s2)
       \<and> fst (update_document e u now name rid b s1) = fst (update_document e u now name rid b s2)
       \<and> fst (delete_document e u now name rid s1) = fst (delete_document e u now name rid s2)"
proof -
  have m: "\<forall>d\<in>set (s1 name). has_id i d \<longrightarrow> \<not> active d" using assms(1) by simp
  show ?thesis
    using m assms(2,3)
    by (simp add: get_document_no_target [where i = i] update_document_no_target [where i = i]
        delete_document_no_target [where i = i])
qed

theorem C6_not_found_indistinguishable_witness:
  "empty_db ''items'' = []
   \<and> db_deleted ''items'' = [widget_deleted]
   \<and> has_id oid1 widget_deleted \<and> \<not> active widget_deleted
   \<and> objectId env0 oid1 = Some oid1
   \<and> fst (get_document env0 ''items'' oid1 empty_db) = fst (get_document env0 ''items'' oid1 db_deleted)
   \<and> fst (update_document env0 alice 9 ''items'' oid1 None empty_db)
       = fst (update_document env0 alice 9 ''items'' oid1 None db_deleted)
   \<and> fst (delete_document env0 alice 9 ''items'' oid1 empty_db)
       = fst (delete_document env0 alice 9 ''items'' oid1 db_deleted)"
  using C6_not_found_indistinguishable [where ?s1.0 = empty_db and ?s2.0 = db_deleted
      and name = "''items''" and i = oid1 and e = env0 and rid = oid1 and u = alice and now = 9
      and b = None]
    empty_db_no_target widget_deleted_target env0_objectId widget_deleted_facts
  by (simp add: empty_db_def)

section \<open>The creation fields after creation\<close>

text \<open>
  C7, as stated: no Update-by-identifier changes \<open>created_at\<close> or \<open>created_by\<close>, for
  any caller-supplied input. The update body is handed to \<open>$set\<close> with only the update
  metadata merged over it, and no key is taken out of it, so a body that names
  \<open>created_by\<close> replaces the stored value.
\<close>

theorem C7_counterexample:
  "db_widget ''items'' = [widget]
   \<and> map_of widget ''created_by'' = Some (JStr ''alice'')
   \<and> snd (update_document env0 (Some [(''username'', JStr ''mallory'')]) 9 ''items'' oid1
            (Some (JObj [(''created_by'', JStr ''mallory'')])) db_widget) ''items''
       = [[(''_id'', JOid oid1), (''name'', JStr ''Widget''),
           (''created_at'', JDate 1), (''created_by'', JStr ''mallory''),
           (''updated_at'', JDate 9), (''updated_by'', JStr ''mallory'')]]"
  by (simp add: eval_defs)

text \<open>
  C7, amended: Soft-delete, by identifier or by filter, changes \<open>created_at\<close> and
  \<open>created_by\<close> of no document. Update-by-identifier changes the field of no document
  when no key of the update body is the field or a path into it, that is, when no key
  has the field as its first component. When the body of an accepted update has the
  field itself as a key, the updated document holds the body's value for it.
\<close>

theorem C7_created_fields_kept:
  assumes "k = ''created_at'' \<or> k = ''created_by''"
  shows "list_all2 (\<lambda>old new. map_of new k = map_of old k) (s name)
           (snd (delete_document e u now name rid s) name)
       \<and> list_all2 (\<lambda>old new. map_of new k = map_of old k) (s name)
           (snd (delete_documents e u now name b s) name)
       \<and> (k \<notin> path_head ` fst ` set (own_props (body_or_empty b)) \<longrightarrow>
            list_all2 (\<lambda>old new. map_of new k = map_of old k) (s name)
              (snd (update_document e u now name rid b s) name))
       \<and> (\<forall>bd v d'. b = Some (JObj bd) \<and> distinct (map fst bd) \<and> map_of bd k = Some v
              \<and> fst (update_document e u now name rid b s)
                  = Response 200 (JObj [(''ok'', JBool True), (''document'', JObj d')])
            \<longrightarrow> map_of d' k = Some v
              \<and> d' \<in> set (snd (update_document e u now name rid b s) name))"
proof -
  have kd: "k \<notin> fst ` set (getDeleteMetadata u now)"
    using assms by (auto simp: getDeleteMetadata_def)
  have ku: "k \<notin> fst ` set (getUpdateMetadata u now)"
    using assms by (auto simp: getUpdateMetadata_def)
  have kp: "plain_field k" using assms by (auto simp: plain_field_def)
  have hu: "path_head ` fst ` set (getUpdateMetadata u now) = fst ` set (getUpdateMetadata u now)"
    by (simp add: getUpdateMetadata_def path_head_def)
  have del: "list_all2 (\<lambda>old new. map_of new k = map_of old k) (s name)
           (snd (delete_document e u now name rid s) name)"
    by (rule list_all2_mono [OF delete_document_shape]) (auto simp: set_fields_other [OF kd])
  have dels: "list_all2 (\<lambda>old new. map_of new k = map_of old k) (s name)
           (snd (delete_documents e u now name b s) name)"
    by (rule list_all2_mono [OF delete_documents_shape]) (auto simp: set_fields_other [OF kd])
  have upd: "list_all2 (\<lambda>old new. map_of new k = map_of old k) (s name)
              (snd (update_document e u now name rid b s) name)"
    if "k \<notin> path_head ` fst ` set (own_props (body_or_empty b))"
  proof -
    have "k \<notin> path_head ` fst ` set (spread (spread [] (own_props (body_or_empty b)))
                                       (getUpdateMetadata u now))"
      using that ku hu by (simp add: spread_keys image_Un)
    then show ?thesis
      by (intro list_all2_mono [OF update_document_shape]) (auto dest: set_update_other)
  qed
  have rep: "map_of d' k = Some v \<and> d' \<in> set (snd (update_document e u now name rid b s) name)"
    if b: "b = Some (JObj bd)" and dist: "distinct (map fst bd)" and m: "map_of bd k = Some v"
      and ok: "fst (update_document e u now name rid b s)
                  = Response 200 (JObj [(''ok'', JBool True), (''document'', JObj d')])"
    for bd v d'
  proof -
    let ?flds = "spread bd (getUpdateMetadata u now)"
    have f: "spread (spread [] (own_props (body_or_empty b))) (getUpdateMetadata u now) = ?flds"
      using b dist by (simp add: body_or_empty_def spread_empty)
    obtain old where o: "set_update e ?flds old = Inr d'"
        and mem: "d' \<in> set (snd (update_document e u now name rid b s) name)"
      using update_document_ok [OF ok] f by auto
    have dd: "distinct (map fst ?flds)" using dist by (rule distinct_spread)
    have "map_of (getUpdateMetadata u now) k = None"
      using ku by (simp add: map_of_eq_None_iff)
    then have mf: "map_of ?flds k = Some v"
      by (simp add: map_of_spread_distinct [OF meta_distinct(2)] m)
    show ?thesis using set_update_plain [OF o dd kp mf] mem by simp
  qed
  show ?thesis using del dels upd rep by blast
qed

theorem C7_created_fields_kept_witness:
  "''created_by'' \<notin> path_head ` fst ` set (own_props (body_or_empty
        (Some (JObj [(''name'', JStr ''Widget2'')]))))
   \<and> list_all2 (\<lambda>old new. map_of new ''created_by'' = map_of old ''created_by'')
        (db_widget ''items'')
        (snd (update_document env0 alice 9 ''items'' oid1
               (Some (JObj [(''name'', JStr ''Widget2'')])) db_widget) ''items'')
   \<and> snd (update_document env0 alice 9 ''items'' oid1
               (Some (JObj [(''name'', JStr ''Widget2'')])) db_widget) ''items''
       = [[(''_id'', JOid oid1), (''name'', JStr ''Widget2''),
           (''created_at'', JDate 1), (''created_by'', JStr ''alice''),
           (''updated_at'', JDate 9), (''updated_by'', JStr ''alice'')]]
   \<and> distinct (map fst [(''created_by'', JStr ''bob'')])
   \<and> map_of [(''created_by'', JStr ''bob'')] ''created_by'' = Some (JStr ''bob'')
   \<and> fst (update_document env0 alice 9 ''items'' oid1
               (Some (JObj [(''created_by'', JStr ''bob'')])) db_widget)
       = Response 200 (JObj [(''ok'', JBool True), (''document'', JObj
           [(''_id'', JOid oid1), (''name'', JStr ''Widget''),
            (''created_at'', JDate 1), (''created_by'', JStr ''bob''),
            (''updated_at'', JDate 9), (''updated_by'', JStr ''alice'')])])
   \<and> map_of [(''_id'', JOid oid1), (''name'', JStr ''Widget''),
            (''created_at'', JDate 1), (''created_by'', JStr ''bob''),
            (''updated_at'', JDate 9), (''updated_by'', JStr ''alice'')] ''created_by''
       = Some (JStr ''bob'')"
proof -
  have k: "''created_by'' = ''created_at'' \<or> ''created_by'' = ''created_by''" by simp
  have n: "''created_by'' \<notin> path_head ` fst ` set (own_props (body_or_empty
        (Some (JObj [(''name'', JStr ''Widget2'')]))))"
    by (simp add: body_or_empty_def path_head_def)
  have v: "snd (update_document env0 alice 9 ''items'' oid1
               (Some (JObj [(''name'', JStr ''Widget2'')])) db_widget) ''items''
       = [[(''_id'', JOid oid1), (''name'', JStr ''Widget2''),
           (''created_at'', JDate 1), (''created_by'', JStr ''alice''),
           (''updated_at'', JDate 9), (''updated_by'', JStr ''alice'')]]"
    by (simp add: eval_defs)
  have r: "fst (update_document env0 alice 9 ''items'' oid1
               (Some (JObj [(''created_by'', JStr ''bob'')])) db_widget)
       = Response 200 (JObj [(''ok'', JBool True), (''document'', JObj
           [(''_id'', JOid oid1), (''name'', JStr ''Widget''),
            (''created_at'', JDate 1), (''created_by'', JStr ''bob''),
            (''updated_at'', JDate 9), (''updated_by'', JStr ''alice'')])])"
    by (simp add: eval_defs)
  have d: "distinct (map fst [(''created_by'', JStr ''bob'')])"
      "map_of [(''created_by'', JStr ''bob'')] ''created_by'' = Some (JStr ''bob'')"
    by simp_all
  show ?thesis
    using C7_created_fields_kept [OF k, where s = db_widget and name = "''items''" and e = env0
        and u = alice and now = 9 and rid = oid1
        and b = "Some (JObj [(''name'', JStr ''Widget2'')])"]
      C7_created_fields_kept [OF k, where s = db_widget and name = "''items''" and e = env0
        and u = alice and now = 9 and rid = oid1
        and b = "Some (JObj [(''created_by'', JStr ''bob'')])"]
      n v r d
    by blast
qed

section \<open>The cap on the limit\<close>

text \<open>
  C8: the find routes hand \<open>Math.min(Number(limit) || d, cap)\<close> to the cursor, with the
  cap 500 for documents and 1000 for the audit log. Whatever the request carries, that
  number is not \<open>NaN\<close>, not \<open>0\<close> (no limit) and not above the cap. The cap bounds it from
  above only: a negative number is below the cap and passes \<open>Math.min\<close> as it is. The
  cursor reads a negative integer as a single batch of that many documents in absolute
  value, so that for \<open>limit: -100000\<close> the store is asked for up to 100000 documents and
  the cap has no part in what comes back.
\<close>

theorem C8_negative_limit_not_capped:
  "js_le (find_limit e l) (Fin 500) \<and> find_limit e l \<noteq> Fin 0
   \<and> js_le (actions_limit e l) (Fin 1000) \<and> actions_limit e l \<noteq> Fin 0
   \<and> (r < 0 \<longrightarrow>
         find_limit e (JNum (Fin r)) = Fin r
       \<and> actions_limit e (JNum (Fin r)) = Fin r
       \<and> (integral r \<longrightarrow>
             cursor_limit e (find_limit e (JNum (Fin r))) ds
               = Inr (take (min (nat (- \<lfloor>r\<rfloor>)) (first_batch e)) ds)
           \<and> cursor_limit e (actions_limit e (JNum (Fin r))) ds
               = Inr (take (min (nat (- \<lfloor>r\<rfloor>)) (first_batch e)) ds)))"
  by (simp add: find_limit_facts actions_limit_facts limit_negative cursor_limit_negative)

theorem C8_negative_limit_not_capped_witness:
  "(- 100000 :: real) < 0 \<and> integral (- 100000)
   \<and> find_limit env0 (JNum (Fin (- 100000))) = Fin (- 100000)
   \<and> actions_limit env0 (JNum (Fin (- 100000))) = Fin (- 100000)
   \<and> cursor_limit env0 (find_limit env0 (JNum (Fin (- 100000)))) (replicate 60 widget)
       = Inr (take (min 100000 (first_batch env0)) (replicate 60 widget))
   \<and> fst (find_documents env0 ''items'' (Some (JObj [(''limit'', JNum (Fin (- 100000)))])) db_many)
       = Response 200 (documents_body ''documents'' (replicate 60 widget))"
proof -
  have n: "(- 100000 :: real) < 0" "integral (- 100000)"
    by (simp_all add: integral_def)
  have t: "find_limit env0 (JNum (Fin (- 100000))) = Fin (- 100000)"
    using n(1) by (rule limit_negative)
  have c: "cursor_limit env0 (Fin (- 100000)) (replicate 60 widget) = Inr (replicate 60 widget)"
    by (simp add: cursor_limit_negative [OF n(2) n(1)] env0_simps)
  have g: "typeof_object (prop_default [(''limit'', JNum (Fin (- 100000)))] ''filter'' (JObj []))"
      "\<not> isArray (prop_default [(''limit'', JNum (Fin (- 100000)))] ''filter'' (JObj []))"
    by (simp_all add: prop_default_def)
  have r: "fst (find_documents env0 ''items'' (Some (JObj [(''limit'', JNum (Fin (- 100000)))])) db_many)
       = Response 200 (documents_body ''documents'' (replicate 60 widget))"
    by (simp add: find_documents_run [OF env0_simps(1,2) g] prop_default_def find_toArray_def
        sort_or_def find_skip_zero cursor_skip_zero t c db_many_def empty_db_def matches_widget
        env0_simps)
  note inst = C8_negative_limit_not_capped [where e = env0 and r = "- 100000"
        and ds = "replicate 60 widget" and l = JNull]
  have a: "find_limit env0 (JNum (Fin (- 100000))) = Fin (- 100000)"
      "actions_limit env0 (JNum (Fin (- 100000))) = Fin (- 100000)"
    using inst n(1) by blast+
  have b: "cursor_limit env0 (find_limit env0 (JNum (Fin (- 100000)))) (replicate 60 widget)
       = Inr (take (min (nat (- \<lfloor>- 100000 :: real\<rfloor>)) (first_batch env0)) (replicate 60 widget))"
    using inst n by blast
  have z: "nat (- \<lfloor>- 100000 :: real\<rfloor>) = 100000" by simp
  show ?thesis using n a b r unfolding z by blast
qed

section \<open>The recorder and the client\<close>

text \<open>
  C9: behind \<open>auditLog\<close> the response object ends exactly as without it: the same
  status code and the same payload sent, for every handler. Every collection other than
  \<open>actions\<close> is as the handler left it. When the audit write fails, whether the handle
  cannot be had, the store cannot be reached or the insert is refused, the database is
  as the handler left it and the only trace is one line on the console; the request
  still yields its response.
\<close>

theorem C9_audit_transparent:
  "fst (auditLog e2 req start now fresh handler w) = fst (unaudited handler w)
   \<and> (\<forall>k. k \<noteq> ''actions'' \<longrightarrow>
         store (snd (auditLog e2 req start now fresh handler w)) k
           = store (snd (unaudited handler w)) k)
   \<and> (\<not> (getDb e2 = None \<and> store_down e2 = None
          \<and> \<not> list_ex (\<lambda>d. map_of d ''_id'' = Some (JOid fresh))
                 (actions (store (snd (unaudited handler w)))))
       \<longrightarrow> store (snd (auditLog e2 req start now fresh handler w)) = store (snd (unaudited handler w))
         \<and> (fst (handler (store w)) \<noteq> None \<longrightarrow>
              (\<exists>m. console (snd (auditLog e2 req start now fresh handler w))
                     = console w @ [''Audit log error: '' @ m])))"
proof (cases "fst (handler (store w))")
  case None
  then show ?thesis by (simp add: auditLog_none unaudited_none)
next
  case (Some rp)
  obtain n payload where rp: "rp = Response n payload" by (cases rp)
  let ?r = "\<lparr>statusCode = n, sent = Some (n, payload)\<rparr>"
  let ?w1 = "w\<lparr>store := snd (handler (store w))\<rparr>"
  have h: "fst (handler (store w)) = Some (Response n payload)" using Some rp by simp
  note a = auditLog_some [where handler = handler and w = w and ?e2.0 = e2 and req = req
      and start = start and now = now and fresh = fresh, OF h]
    unaudited_some [where handler = handler and w = w, OF h]
  show ?thesis
  proof (cases "getDb e2 = None \<and> store_down e2 = None
          \<and> \<not> list_ex (\<lambda>d. map_of d ''_id'' = Some (JOid fresh)) (actions (store ?w1))")
    case True
    then have "on_finish e2 req ?r start now fresh ?w1
       = ?w1\<lparr>store := (store ?w1)(''actions'' := actions (store ?w1)
                         @ [set_prop ''_id'' (JOid fresh) (action req ?r start now)])\<rparr>"
      by (intro on_finish_ok) simp_all
    then show ?thesis using True by (simp add: a)
  next
    case False
    then obtain m where "on_finish e2 req ?r start now fresh ?w1
       = ?w1\<lparr>console := console ?w1 @ [''Audit log error: '' @ m]\<rparr>"
      using on_finish_failed [of e2 fresh ?w1 req ?r start now] by blast
    then show ?thesis using False h by (simp add: a)
  qed
qed

theorem C9_audit_transparent_witness:
  "store_down env_down = Some ''connection lost''
   \<and> fst (ok_handler (store w0)) = Some (Response 200 (JObj [(''ok'', JBool True)]))
   \<and> fst (auditLog env_down req0 100 105 oid1 ok_handler w0) = fst (unaudited ok_handler w0)
   \<and> sent (fst (unaudited ok_handler w0)) = Some (200, JObj [(''ok'', JBool True)])
   \<and> store (snd (auditLog env_down req0 100 105 oid1 ok_handler w0))
       = store (snd (unaudited ok_handler w0))
   \<and> (\<exists>m. console (snd (auditLog env_down req0 100 105 oid1 ok_handler w0))
            = console w0 @ [''Audit log error: '' @ m])"
proof -
  have d: "store_down env_down = Some ''connection lost''"
    by (simp add: env_down_def)
  have h: "fst (ok_handler (store w0)) = Some (Response 200 (JObj [(''ok'', JBool True)]))"
    by (simp add: ok_handler_def)
  have v: "sent (fst (unaudited ok_handler w0)) = Some (200, JObj [(''ok'', JBool True)])"
    by (simp add: audit_eval_defs)
  show ?thesis
    using C9_audit_transparent [where ?e2.0 = env_down and req = req0 and start = 100
        and now = 105 and fresh = oid1 and handler = ok_handler and w = w0] d h v
    by simp
qed

section \<open>The defaults of limit and skip\<close>



end
